(* ===== verification/Prelude.thy ===== *)
theory Prelude
  imports Main
begin

text \<open>
  The Python runtime pieces that \<^verbatim>\<open>src/tictactoe/tictactoe.py\<close> relies on, shared
  by every component theory: the exceptions it can raise (as the left side of a sum
  type), list indexing and item assignment with Python's negative-index rule, the
  \<^verbatim>\<open>float("-inf")\<close>/\<^verbatim>\<open>float("inf")\<close> sentinels of the search as an extended
  integer type with its linear order, the builtins \<^verbatim>\<open>max\<close>, \<^verbatim>\<open>min\<close> and
  \<^verbatim>\<open>list.index\<close>, and the list lemmas the component proofs share.
\<close>

named_theorems py_simps "evaluation rules of the modelled Python builtins"

section \<open>Exceptions\<close>

text \<open>
  \<open>NameError\<close> carries the undefined name: \<^verbatim>\<open>result\<close> raises
  \<^verbatim>\<open>ValidationError(...)\<close>, a name the module never defines or imports, so what
  Python actually raises is \<^verbatim>\<open>NameError: name 'ValidationError' is not defined\<close>.
\<close>

datatype py_error = IndexError | NameError string | ValueError

type_synonym 'a py_result = "py_error + 'a"

section \<open>Python list indexing\<close>

definition py_norm :: "nat \<Rightarrow> int \<Rightarrow> int" where
  "py_norm n i = (if i < 0 then int n + i else i)"

definition py_get :: "'a list \<Rightarrow> int \<Rightarrow> 'a py_result" where
  "py_get xs i =
     (let j = py_norm (length xs) i
      in if 0 \<le> j \<and> j < int (length xs) then Inr (xs ! nat j) else Inl IndexError)"

definition py_set :: "'a list \<Rightarrow> int \<Rightarrow> 'a \<Rightarrow> 'a list py_result" where
  "py_set xs i v =
     (let j = py_norm (length xs) i
      in if 0 \<le> j \<and> j < int (length xs) then Inr (xs[nat j := v]) else Inl IndexError)"

section \<open>The sentinels \<^verbatim>\<open>float("-inf")\<close> and \<^verbatim>\<open>float("inf")\<close>\<close>

text \<open>
  The search compares Python ints with the float infinities; the values it handles are
  exactly the integers extended by the two infinities, ordered as Python orders them.
\<close>

datatype ext_int = NegInf | Fin int | PosInf

instantiation ext_int :: linorder
begin

fun less_eq_ext_int :: "ext_int \<Rightarrow> ext_int \<Rightarrow> bool" where
  "less_eq_ext_int NegInf _ = True"
| "less_eq_ext_int (Fin _) NegInf = False"
| "less_eq_ext_int (Fin a) (Fin b) = (a \<le> b)"
| "less_eq_ext_int (Fin _) PosInf = True"
| "less_eq_ext_int PosInf y = (y = PosInf)"

definition less_ext_int :: "ext_int \<Rightarrow> ext_int \<Rightarrow> bool" where
  "less_ext_int x y = (x \<le> y \<and> \<not> y \<le> x)"

instance
proof
  fix x y z :: ext_int
  show "x < y \<longleftrightarrow> x \<le> y \<and> \<not> y \<le> x"
    by (simp only: less_ext_int_def)
  show "x \<le> x"
    by (cases x) simp_all
  show "x \<le> z" if "x \<le> y" and "y \<le> z"
    using that by (cases x; cases y; cases z) simp_all
  show "x = y" if "x \<le> y" and "y \<le> x"
    using that by (cases x; cases y) simp_all
  show "x \<le> y \<or> y \<le> x"
    by (cases x; cases y) auto
qed

end

section \<open>The builtins \<^verbatim>\<open>max\<close>, \<^verbatim>\<open>min\<close> and \<^verbatim>\<open>list.index\<close>\<close>

text \<open>
  \<^verbatim>\<open>max(xs)\<close> on a list raises \<^verbatim>\<open>ValueError\<close> when the list is empty and otherwise
  keeps the first element that no later one exceeds; on a linear order its value is the
  fold of \<open>max\<close>.
\<close>

fun py_max :: "'a::linorder list \<Rightarrow> 'a py_result" where
  "py_max [] = Inl ValueError"
| "py_max (x # xs) = Inr (fold max xs x)"

fun py_min :: "'a::linorder list \<Rightarrow> 'a py_result" where
  "py_min [] = Inl ValueError"
| "py_min (x # xs) = Inr (fold min xs x)"

text \<open>\<^verbatim>\<open>xs.index(v)\<close>: the first position holding \<open>v\<close>, \<^verbatim>\<open>ValueError\<close> if none does.\<close>

fun py_index :: "'a list \<Rightarrow> 'a \<Rightarrow> nat py_result" where
  "py_index [] v = Inl ValueError"
| "py_index (x # xs) v =
     (if x = v then Inr 0
      else (case py_index xs v of Inl e \<Rightarrow> Inl e | Inr i \<Rightarrow> Inr (Suc i)))"

section \<open>Lemmas on the sentinels\<close>

lemma ext_int_less_simps [simp]:
  "Fin a < Fin b \<longleftrightarrow> a < b"
  "NegInf < Fin a" "Fin a < PosInf" "NegInf < PosInf"
  "\<not> x < NegInf" "\<not> PosInf < x"
  by (cases x; auto simp: less_ext_int_def)+

lemma ext_int_max_simps [simp]:
  "max NegInf x = x" "max x NegInf = x" "max (Fin a) (Fin b) = Fin (max a b)"
  by (cases x; auto simp: max_def)+

lemma ext_int_min_simps [simp]:
  "min PosInf x = x" "min x PosInf = x" "min (Fin a) (Fin b) = Fin (min a b)"
  by (cases x; auto simp: min_def)+

section \<open>Lemmas on indexing\<close>

lemma py_get_Inr_iff:
  "py_get xs i = Inr y \<longleftrightarrow>
     (\<exists>j. py_norm (length xs) i = int j \<and> j < length xs \<and> y = xs ! j)"
  by (auto simp: py_get_def Let_def intro!: exI [of _ "nat (py_norm (length xs) i)"])

lemma py_get_Inl_iff:
  "py_get xs i = Inl e \<longleftrightarrow>
     e = IndexError \<and> \<not> (0 \<le> py_norm (length xs) i \<and> py_norm (length xs) i < int (length xs))"
  by (auto simp: py_get_def Let_def)

lemma py_set_Inr_iff:
  "py_set xs i v = Inr ys \<longleftrightarrow>
     (\<exists>j. py_norm (length xs) i = int j \<and> j < length xs \<and> ys = xs[j := v])"
  by (auto simp: py_set_def Let_def intro!: exI [of _ "nat (py_norm (length xs) i)"])

text \<open>An index that \<^verbatim>\<open>xs[i]\<close> accepts is one that \<^verbatim>\<open>xs[i] = v\<close> accepts too.\<close>

lemma py_set_of_get:
  assumes "py_get xs i = Inr y"
  obtains j where "py_norm (length xs) i = int j" "j < length xs" "xs ! j = y"
    "py_set xs i v = Inr (xs[j := v])"
  using assms by (auto simp: py_get_Inr_iff py_set_Inr_iff)

text \<open>Python accepts exactly the indices \<open>-n \<le> i < n\<close> of a list of length \<open>n\<close>.\<close>

lemma py_norm_range:
  "(0 \<le> py_norm n i \<and> py_norm n i < int n) \<longleftrightarrow> (- int n \<le> i \<and> i < int n)"
  by (auto simp: py_norm_def)

lemma py_get_eq [py_simps]:
  "py_get xs i =
     (if - int (length xs) \<le> i \<and> i < int (length xs)
      then Inr (xs ! nat (py_norm (length xs) i)) else Inl IndexError)"
  by (simp only: py_get_def Let_def py_norm_range)

lemma py_set_eq [py_simps]:
  "py_set xs i v =
     (if - int (length xs) \<le> i \<and> i < int (length xs)
      then Inr (xs[nat (py_norm (length xs) i) := v]) else Inl IndexError)"
  by (simp only: py_set_def Let_def py_norm_range)

text \<open>Store and load through the same index: \<^verbatim>\<open>xs[i] = v\<close> then \<^verbatim>\<open>xs[i]\<close> reads \<open>v\<close>,
  and storing back the old value restores the list.\<close>

lemma py_set_Inl_iff: "py_set xs i v = Inl e \<longleftrightarrow> py_get xs i = Inl e"
  by (simp add: py_set_def py_get_def Let_def)

lemma py_get_set_same: "py_set xs i v = Inr ys \<Longrightarrow> py_get ys i = Inr v"
  by (auto simp: py_set_Inr_iff py_get_Inr_iff)

lemma py_set_restore: "py_get xs i = Inr y \<Longrightarrow> py_set xs i v = Inr ys \<Longrightarrow> py_set ys i y = Inr xs"
  by (auto simp: py_set_Inr_iff py_get_Inr_iff)

lemma py_norm_nat_less:
  "- int n \<le> i \<Longrightarrow> i < int n \<Longrightarrow> nat (py_norm n i) < n"
  by (auto simp: py_norm_def)

lemma py_get_nonneg:
  "j < length xs \<Longrightarrow> py_get xs (int j) = Inr (xs ! j)"
  by (simp add: py_get_def py_norm_def)

lemma py_set_nonneg:
  "j < length xs \<Longrightarrow> py_set xs (int j) v = Inr (xs[j := v])"
  by (simp add: py_set_def py_norm_def)

section \<open>Lemmas on the builtins\<close>

lemma fold_max_Max: "fold max xs (x::'a::linorder) = Max (set (x # xs))"
  by (rule Max.set_eq_fold [symmetric])

lemma fold_min_Min: "fold min xs (x::'a::linorder) = Min (set (x # xs))"
  by (rule Min.set_eq_fold [symmetric])

lemma fold_max_mem: "fold max xs (x::'a::linorder) \<in> set (x # xs)"
proof -
  have "Max (set (x # xs)) \<in> set (x # xs)" by (rule Max_in) simp_all
  then show ?thesis by (simp only: fold_max_Max)
qed

lemma fold_min_mem: "fold min xs (x::'a::linorder) \<in> set (x # xs)"
proof -
  have "Min (set (x # xs)) \<in> set (x # xs)" by (rule Min_in) simp_all
  then show ?thesis by (simp only: fold_min_Min)
qed

lemma fold_max_ge: "y \<in> set ((x::'a::linorder) # xs) \<Longrightarrow> y \<le> fold max xs x"
proof -
  assume "y \<in> set (x # xs)"
  then have "y \<le> Max (set (x # xs))" by (intro Max_ge) simp_all
  then show ?thesis by (simp only: fold_max_Max)
qed

lemma fold_min_le: "y \<in> set ((x::'a::linorder) # xs) \<Longrightarrow> fold min xs x \<le> y"
proof -
  assume "y \<in> set (x # xs)"
  then have "Min (set (x # xs)) \<le> y" by (intro Min_le) simp_all
  then show ?thesis by (simp only: fold_min_Min)
qed

lemma py_index_Inr_iff:
  "py_index xs v = Inr i \<longleftrightarrow> i < length xs \<and> xs ! i = v \<and> (\<forall>k<i. xs ! k \<noteq> v)"
proof (induction xs arbitrary: i)
  case Nil then show ?case by simp
next
  case (Cons x xs)
  show ?case
  proof (cases "x = v")
    case True then show ?thesis by (cases i) auto
  next
    case False
    show ?thesis
    proof (cases i)
      case 0
      with False show ?thesis by (auto split: sum.splits)
    next
      case (Suc j)
      have "(\<forall>k<Suc j. (x # xs) ! k \<noteq> v) \<longleftrightarrow> (\<forall>k<j. xs ! k \<noteq> v)"
        using False by (auto simp: less_Suc_eq_0_disj)
      with False Suc Cons.IH [of j] show ?thesis by (auto split: sum.splits)
    qed
  qed
qed

lemma py_index_mem: "v \<in> set xs \<Longrightarrow> \<exists>i. py_index xs v = Inr i"
  by (induction xs) (auto split: sum.splits)

section \<open>List comprehensions\<close>

lemma concat_map_if_singleton:
  "concat (map (\<lambda>x. if P x then [f x] else []) xs) = map f (filter P xs)"
  by (induction xs) auto

lemma find_append_split:
  "find P (xs @ ys) = (case find P xs of None \<Rightarrow> find P ys | Some x \<Rightarrow> Some x)"
  by (induction xs) auto

lemma find_map_comp: "find P (map f xs) = map_option f (find (P \<circ> f) xs)"
  by (induction xs) auto

section \<open>Counting after a list update\<close>

lemma find_None_mono: "find P xs = None \<Longrightarrow> (\<And>x. Q x \<Longrightarrow> P x) \<Longrightarrow> find Q xs = None"
  by (auto simp: find_None_iff)

lemma find_Some_mono:
  "find P xs = Some x \<Longrightarrow> (\<And>y. Q y \<Longrightarrow> P y) \<Longrightarrow> Q x \<Longrightarrow> find Q xs = Some x"
  by (auto simp: find_Some_iff)

lemma sum_list_map_le: "\<forall>x \<in> set xs. f x \<le> (k::nat) \<Longrightarrow> sum_list (map f xs) \<le> length xs * k"
  by (induction xs) auto

lemma count_list_update:
  "k < length xs \<Longrightarrow>
     count_list (xs[k := v]) x + (if xs ! k = x then 1 else 0)
       = count_list xs x + (if v = x then 1 else 0)"
proof (induction xs arbitrary: k)
  case Nil then show ?case by simp
next
  case (Cons y ys)
  show ?case
  proof (cases k)
    case 0 then show ?thesis by simp
  next
    case (Suc k')
    with Cons.prems Cons.IH [of k'] show ?thesis
      by (cases "ys ! k' = x"; cases "v = x") simp_all
  qed
qed

lemma count_list_concat_update:
  "j < length xss \<Longrightarrow>
     count_list (concat (xss[j := ys])) x + count_list (xss ! j) x
       = count_list (concat xss) x + count_list ys x"
proof (induction xss arbitrary: j)
  case Nil then show ?case by simp
next
  case (Cons zs zss)
  then show ?case by (cases j) auto
qed

lemma length_concat_update:
  "j < length xss \<Longrightarrow> length (xss ! j) = length ys \<Longrightarrow>
     length (concat (xss[j := ys])) = length (concat xss)"
proof (induction xss arbitrary: j)
  case Nil then show ?case by simp
next
  case (Cons zs zss)
  then show ?case by (cases j) auto
qed

text \<open>Rewriting list comprehensions and fixed-size lists by computation.\<close>

lemma upt_0_Suc: "[0..<Suc n] = 0 # map Suc [0..<n]"
  by (simp add: upt_conv_Cons map_Suc_upt)

lemma map_if_singleton: "map f (if P then [x] else []) = (if P then [f x] else [])"
  by simp

lemma case_option_if:
  "case_option n s (if P then x else y) = (if P then case_option n s x else case_option n s y)"
  by simp

lemma case_bool_if: "(case P of True \<Rightarrow> x | False \<Rightarrow> y) = (if P then x else y)"
  by (cases P) simp_all

lemma nth3: "[x, y, z] ! 0 = x" "[x, y, z] ! 1 = y" "[x, y, z] ! 2 = z"
  by (simp_all add: numeral_2_eq_2)

lemma foldr_max_less: "\<forall>x \<in> set xs. x < n \<Longrightarrow> 0 < n \<Longrightarrow> foldr max xs 0 < (n::nat)"
  by (induction xs) auto

end
