(* ===== verification/Board.thy ===== *)
theory Board
  imports Prelude
begin

text \<open>
  The board and its query functions, lines 8--79 of \<^verbatim>\<open>src/tictactoe/tictactoe.py\<close>:
  the constants \<^verbatim>\<open>X\<close>, \<^verbatim>\<open>O\<close>, \<^verbatim>\<open>EMPTY\<close>, \<^verbatim>\<open>N\<close>, and \<^verbatim>\<open>initial_state\<close>,
  \<^verbatim>\<open>_count_X_and_Os\<close>, \<^verbatim>\<open>player\<close>, \<^verbatim>\<open>actions\<close> and \<^verbatim>\<open>result\<close>. A board is
  the source's list of rows; a cell is \<open>None\<close> (Python's \<^verbatim>\<open>None\<close>, the module's
  \<^verbatim>\<open>EMPTY\<close>) or the mark of a player. The Python strings \<^verbatim>\<open>"X"\<close> and \<^verbatim>\<open>"O"\<close>
  are the constructors \<open>PX\<close> and \<open>PO\<close> (\<open>O\<close> is taken by relation composition).
  The scans of \<^verbatim>\<open>_count_X_and_Os\<close> and \<^verbatim>\<open>actions\<close> read \<^verbatim>\<open>board[r][c]\<close> for
  \<open>r, c < N\<close> only, which are in range on every board of the right shape
  (\<open>wf_board\<close>); \<^verbatim>\<open>result\<close> indexes with a caller's action and is modelled with
  Python's indexing rules, negative indices and \<^verbatim>\<open>IndexError\<close> included.
\<close>

section \<open>Data\<close>

datatype Player = PX | PO

type_synonym cell = "Player option"
type_synonym board = "cell list list"
type_synonym action = "int \<times> int"

abbreviation EMPTY :: cell where
  "EMPTY \<equiv> None"

definition N :: nat where
  "N = 3"

definition initial_state :: board where
  "initial_state = [[EMPTY, EMPTY, EMPTY],
                    [EMPTY, EMPTY, EMPTY],
                    [EMPTY, EMPTY, EMPTY]]"

text \<open>The shape every board of the program has: \<open>N\<close> rows of \<open>N\<close> cells.\<close>

definition wf_board :: "board \<Rightarrow> bool" where
  "wf_board board \<longleftrightarrow> length board = N \<and> list_all (\<lambda>row. length row = N) board"

section \<open>Operations\<close>

text \<open>One iteration of the nested loop of \<^verbatim>\<open>_count_X_and_Os\<close>.\<close>

definition count_step :: "board \<Rightarrow> nat \<times> nat \<Rightarrow> nat \<times> nat \<Rightarrow> nat \<times> nat" where
  "count_step board = (\<lambda>(r, c) (nXs, nOs).
     if board ! r ! c = Some PX then (Suc nXs, nOs)
     else if board ! r ! c = Some PO then (nXs, Suc nOs)
     else (nXs, nOs))"

definition count_X_and_Os :: "board \<Rightarrow> nat \<times> nat" where
  "count_X_and_Os board = fold (count_step board) (List.product [0..<N] [0..<N]) (0, 0)"

definition player :: "board \<Rightarrow> Player" where
  "player board = (case count_X_and_Os board of (nXs, nOs) \<Rightarrow> if nXs = nOs then PX else PO)"

definition actions :: "board \<Rightarrow> action list" where
  "actions board = [(int r, int c). r \<leftarrow> [0..<N], c \<leftarrow> [0..<N], board ! r ! c = EMPTY]"

text \<open>
  \<^verbatim>\<open>result\<close>: \<^verbatim>\<open>board[r][c]\<close> may raise \<^verbatim>\<open>IndexError\<close>; an occupied cell raises
  (the \<^verbatim>\<open>NameError\<close> of the undefined \<^verbatim>\<open>ValidationError\<close>); otherwise the deep copy
  has \<^verbatim>\<open>result[r][c] = player(board)\<close> assigned, through the same indices.
\<close>

definition result :: "board \<Rightarrow> action \<Rightarrow> board py_result" where
  "result board action = (case action of (r, c) \<Rightarrow>
     (case py_get board r of Inl e \<Rightarrow> Inl e | Inr row \<Rightarrow>
     (case py_get row c of Inl e \<Rightarrow> Inl e | Inr cell \<Rightarrow>
      if cell \<noteq> EMPTY then Inl (NameError ''ValidationError'')
      else (case py_set row c (Some (player board)) of Inl e \<Rightarrow> Inl e | Inr row' \<Rightarrow>
            py_set board r row'))))"

section \<open>Cells in scan order\<close>

text \<open>The cells the nested \<^verbatim>\<open>for r ... for c\<close> loops visit, in their order.\<close>

definition board_cells :: "board \<Rightarrow> cell list" where
  "board_cells board = [board ! r ! c. r \<leftarrow> [0..<N], c \<leftarrow> [0..<N]]"

definition empties :: "board \<Rightarrow> nat" where
  "empties board = count_list (concat board) EMPTY"

text \<open>Row-major order on actions: by row, then by column.\<close>

definition row_major_less :: "action \<Rightarrow> action \<Rightarrow> bool" where
  "row_major_less a a' = (fst a < fst a' \<or> fst a = fst a' \<and> snd a < snd a')"

lemma wf_board_cases:
  assumes "wf_board b"
  obtains a0 a1 a2 b0 b1 b2 c0 c1 c2 where
    "b = [[a0, a1, a2], [b0, b1, b2], [c0, c1, c2]]"
proof -
  from assms obtain r0 r1 r2 where b: "b = [r0, r1, r2]"
    and "length r0 = 3" "length r1 = 3" "length r2 = 3"
    by (auto simp: wf_board_def N_def numeral_3_eq_3 length_Suc_conv)
  then show ?thesis
    using that by (auto simp: numeral_3_eq_3 length_Suc_conv)
qed

lemma board_cells_concat: "wf_board b \<Longrightarrow> board_cells b = concat b"
  by (erule wf_board_cases) (simp add: board_cells_def N_def upt_rec)

lemma wf_board_3x3 [simp]: "wf_board [[a0, a1, a2], [b0, b1, b2], [c0, c1, c2]]"
  by (simp add: wf_board_def N_def)

lemma wf_board_nth [simp]:
  "wf_board b \<Longrightarrow> r < N \<Longrightarrow> length (b ! r) = N"
  by (auto simp: wf_board_def list_all_length)

lemma count_fold:
  "fold (count_step b) ps (x, y) =
     (x + count_list (map (\<lambda>(r, c). b ! r ! c) ps) (Some PX),
      y + count_list (map (\<lambda>(r, c). b ! r ! c) ps) (Some PO))"
  by (induction ps arbitrary: x y) (auto simp: count_step_def)

lemma map_product_cells:
  "map (\<lambda>(r, c). b ! r ! c) (List.product [0..<N] [0..<N]) = board_cells b"
  by (simp add: board_cells_def product_concat_map map_concat comp_def)

text \<open>The nested loop counts the marks of each player among the scanned cells.\<close>

lemma count_X_and_Os_cells:
  "count_X_and_Os b = (count_list (board_cells b) (Some PX), count_list (board_cells b) (Some PO))"
  by (simp add: count_X_and_Os_def count_fold map_product_cells)

lemma player_empty_board [simp]:
  "player [[EMPTY, EMPTY, EMPTY], [EMPTY, EMPTY, EMPTY], [EMPTY, EMPTY, EMPTY]] = PX"
  by (simp add: player_def count_X_and_Os_cells board_cells_def N_def upt_rec)

lemma actions_filter:
  "actions b = map (\<lambda>(r, c). (int r, int c))
                 (filter (\<lambda>(r, c). b ! r ! c = EMPTY) (List.product [0..<N] [0..<N]))"
  by (simp add: actions_def product_concat_map map_concat filter_concat comp_def
      concat_map_if_singleton filter_map)

section \<open>Behaviour of \<^verbatim>\<open>result\<close>\<close>

text \<open>\<^verbatim>\<open>result\<close> on any list of lists, with Python's indexing written out.\<close>

lemma result_eq:
  "result b (r, c) =
     (if - int (length b) \<le> r \<and> r < int (length b) then
        (let i = nat (py_norm (length b) r); row = b ! i in
         if - int (length row) \<le> c \<and> c < int (length row) then
           (let j = nat (py_norm (length row) c) in
            if row ! j \<noteq> EMPTY then Inl (NameError ''ValidationError'')
            else Inr (b[i := row[j := Some (player b)]]))
         else Inl IndexError)
      else Inl IndexError)"
  by (simp add: result_def py_simps Let_def)

lemma result_Inr:
  assumes "result b a = Inr b'"
  obtains i j where "i < length b" "j < length (b ! i)" "b ! i ! j = EMPTY"
    "b' = b[i := (b ! i)[j := Some (player b)]]"
proof -
  obtain r c where a: "a = (r, c)" by (cases a)
  show ?thesis
    using assms that py_norm_nat_less
    unfolding a result_eq Let_def by (auto split: if_splits)
qed

text \<open>The four list operations of a successful \<^verbatim>\<open>result\<close>.\<close>

lemma result_Inr_steps:
  assumes "result b (r, c) = Inr b'"
  obtains row row' where "py_get b r = Inr row" "py_get row c = Inr EMPTY"
    "py_set row c (Some (player b)) = Inr row'" "py_set b r row' = Inr b'"
  using assms by (auto simp: result_def split: sum.splits if_splits)

lemma result_wf: "result b a = Inr b' \<Longrightarrow> wf_board b \<Longrightarrow> wf_board b'"
  by (erule result_Inr) (auto simp: wf_board_def list_all_length nth_list_update)

text \<open>Each successful move fills exactly one empty cell: the measure of the search.\<close>

lemma empties_fill:
  assumes i: "i < length b" and j: "j < length (b ! i)" and e: "b ! i ! j = EMPTY" and v: "v \<noteq> EMPTY"
  shows "Suc (empties (b[i := (b ! i)[j := v]])) = empties b"
proof -
  have "count_list ((b ! i)[j := v]) EMPTY + 1 = count_list (b ! i) EMPTY"
    using count_list_update [OF j, of v EMPTY] e v by simp
  moreover have "count_list (concat (b[i := (b ! i)[j := v]])) EMPTY + count_list (b ! i) EMPTY
      = count_list (concat b) EMPTY + count_list ((b ! i)[j := v]) EMPTY"
    by (rule count_list_concat_update [OF i])
  ultimately show ?thesis by (simp add: empties_def)
qed

lemma result_empties: "result b a = Inr b' \<Longrightarrow> Suc (empties b') = empties b"
  by (erule result_Inr) (simp add: empties_fill)

lemma result_empties_less: "result b a = Inr b' \<Longrightarrow> empties b' < empties b"
  using result_empties by fastforce

lemma wf_board_length: "wf_board b \<Longrightarrow> length b = N"
  by (simp add: wf_board_def)

text \<open>A move at a non-negative position in range.\<close>

lemma result_nonneg:
  assumes "wf_board b" "i < N" "j < N"
  shows "result b (int i, int j) =
    (if b ! i ! j \<noteq> EMPTY then Inl (NameError ''ValidationError'')
     else Inr (b[i := (b ! i)[j := Some (player b)]]))"
  using assms by (simp add: result_eq wf_board_length py_norm_def)

section \<open>Behaviour of \<^verbatim>\<open>actions\<close>\<close>

lemma set_actions_iff:
  "(r, c) \<in> set (actions b) \<longleftrightarrow>
     (\<exists>i j. r = int i \<and> c = int j \<and> i < N \<and> j < N \<and> b ! i ! j = EMPTY)"
  by (auto simp: actions_def)

lemma length_actions: "wf_board b \<Longrightarrow> length (actions b) = empties b"
proof -
  assume wf: "wf_board b"
  have "length (actions b) =
      length (filter (\<lambda>(r, c). b ! r ! c = EMPTY) (List.product [0..<N] [0..<N]))"
    by (simp add: actions_filter)
  also have "\<dots> = count_list (map (\<lambda>(r, c). b ! r ! c) (List.product [0..<N] [0..<N])) EMPTY"
    by (simp add: count_list_eq_length_filter filter_map comp_def split_def eq_commute)
  also have "\<dots> = empties b"
    by (simp add: map_product_cells board_cells_concat [OF wf] empties_def)
  finally show ?thesis .
qed

text \<open>A move the board offers always succeeds.\<close>

lemma result_action_Inr:
  assumes "wf_board b" "a \<in> set (actions b)"
  shows "\<exists>b'. result b a = Inr b'"
proof -
  obtain r c where a: "a = (r, c)" by (cases a)
  with assms(2) obtain i j where "r = int i" "c = int j" "i < N" "j < N" "b ! i ! j = EMPTY"
    by (auto simp: set_actions_iff)
  with a show ?thesis using result_nonneg [OF assms(1)] by simp
qed

lemma board_update_nth:
  "i < length b \<Longrightarrow> j < length (b ! i) \<Longrightarrow> r < length b \<Longrightarrow>
     b[i := (b ! i)[j := v]] ! r ! c = (if r = i \<and> c = j then v else b ! r ! c)"
  by (cases "r = i") (auto simp: nth_list_update)

text \<open>A legal move at \<open>(i, j)\<close> leaves the board's other cells as they were.\<close>

lemma actions_update:
  assumes "wf_board b" "i < N" "j < N"
  shows "actions (b[i := (b ! i)[j := Some p]]) = filter (\<lambda>x. x \<noteq> (int i, int j)) (actions b)"
proof -
  let ?b' = "b[i := (b ! i)[j := Some p]]"
  let ?P = "List.product [0..<N] [0..<N]"
  let ?f = "\<lambda>(r::nat, c::nat). (int r, int c)"
  have "filter (\<lambda>(r, c). ?b' ! r ! c = EMPTY) ?P
      = filter (\<lambda>x. (case x of (r, c) \<Rightarrow> b ! r ! c = EMPTY) \<and> ?f x \<noteq> (int i, int j)) ?P"
    using assms by (intro filter_cong) (auto simp: board_update_nth wf_board_length split: if_splits)
  then show ?thesis
    by (simp add: actions_filter filter_map filter_filter comp_def case_prod_beta)
qed

lemma sorted_wrt_product:
  "sorted_wrt (<) (xs :: nat list) \<Longrightarrow> sorted_wrt (<) (ys :: nat list) \<Longrightarrow>
     sorted_wrt (\<lambda>x y. fst x < fst y \<or> fst x = fst y \<and> snd x < snd y) (List.product xs ys)"
  by (induction xs) (auto simp: sorted_wrt_append sorted_wrt_map)

section \<open>Properties\<close>

text \<open>
  C6. \<^verbatim>\<open>result\<close> on a board of the program's shape, on every branch: an index
  outside \<open>[-N, N)\<close> raises \<^verbatim>\<open>IndexError\<close>; an occupied cell raises (the
  \<^verbatim>\<open>NameError\<close> of the undefined \<^verbatim>\<open>ValidationError\<close>); otherwise the result is the
  board with exactly that cell set to \<^verbatim>\<open>player(board)\<close>, the position read with
  Python's negative-index rule.
\<close>

theorem result_spec:
  assumes "wf_board b"
  shows "result b (r, c) =
    (if - int N \<le> r \<and> r < int N \<and> - int N \<le> c \<and> c < int N then
       (let i = nat (py_norm N r); j = nat (py_norm N c) in
        if b ! i ! j \<noteq> EMPTY then Inl (NameError ''ValidationError'')
        else Inr (b[i := (b ! i)[j := Some (player b)]]))
     else Inl IndexError)"
proof (cases "- int N \<le> r \<and> r < int N")
  case True
  then have "length (b ! nat (py_norm N r)) = N"
    using assms py_norm_nat_less by simp
  with True show ?thesis
    unfolding result_eq Let_def wf_board_length [OF assms] by simp
next
  case False
  then show ?thesis by (auto simp: result_eq wf_board_length [OF assms])
qed

theorem result_spec_witness:
  "wf_board initial_state \<and>
   result initial_state (1, 1) = Inr [[None, None, None], [None, Some PX, None], [None, None, None]] \<and>
   result initial_state (3, 0) = Inl IndexError"
proof -
  have wf: "wf_board initial_state"
    by (simp add: initial_state_def)
  show ?thesis
    using wf result_spec [OF wf, of 1 1] result_spec [OF wf, of 3 0]
    by (simp add: py_norm_def N_def initial_state_def)
qed

text \<open>
  C13. \<^verbatim>\<open>result\<close> accepts negative coordinates: a row index \<open>-N \<le> r < 0\<close> acts as
  \<open>r + N\<close>, by Python's indexing, where the spec says out-of-range coordinates fail.
\<close>

theorem result_negative_index:
  assumes "wf_board b" "- int N \<le> r" "r < 0"
  shows "result b (r, c) = result b (r + int N, c)"
  using assms by (simp add: result_eq wf_board_length py_norm_def Let_def add.commute)

theorem result_negative_index_witness:
  "result initial_state (-1, 0) = result initial_state (2, 0) \<and>
   result initial_state (-1, 0) = Inr [[None, None, None], [None, None, None], [Some PX, None, None]]"
proof -
  have wf: "wf_board initial_state"
    by (simp add: initial_state_def)
  have "result initial_state (-1, 0) = result initial_state (2, 0)"
    using result_negative_index [OF wf, of "-1" 0] by (simp add: N_def)
  then show ?thesis
    by (simp add: result_eq py_norm_def initial_state_def Let_def)
qed

text \<open>
  C9. A move drawn from \<^verbatim>\<open>actions(board)\<close> succeeds, and the new board's actions are
  the old ones without the move played: one fewer, in the same order.
\<close>

theorem actions_after_result:
  assumes "wf_board b" "a \<in> set (actions b)"
  shows "\<exists>b'. result b a = Inr b' \<and> actions b' = filter (\<lambda>x. x \<noteq> a) (actions b) \<and>
              Suc (length (actions b')) = length (actions b)"
proof -
  obtain r c where a: "a = (r, c)" by (cases a)
  with assms(2) obtain i j where ij: "r = int i" "c = int j" "i < N" "j < N" "b ! i ! j = EMPTY"
    by (auto simp: set_actions_iff)
  let ?b' = "b[i := (b ! i)[j := Some (player b)]]"
  have res: "result b a = Inr ?b'"
    using ij a result_nonneg [OF assms(1)] by simp
  moreover have "actions ?b' = filter (\<lambda>x. x \<noteq> a) (actions b)"
    using actions_update [OF assms(1) ij(3,4)] ij a by simp
  moreover have "Suc (length (actions ?b')) = length (actions b)"
    using res result_empties [OF res] result_wf [OF res assms(1)] assms(1)
    by (simp add: length_actions)
  ultimately show ?thesis by blast
qed

theorem actions_after_result_witness:
  "\<exists>b'. result initial_state (0, 1) = Inr b' \<and>
        actions b' = filter (\<lambda>x. x \<noteq> (0, 1)) (actions initial_state) \<and>
        Suc (length (actions b')) = length (actions initial_state)"
proof (rule actions_after_result)
  show "wf_board initial_state"
    by (simp add: initial_state_def)
  show "(0, 1) \<in> set (actions initial_state)"
    by (simp add: actions_def initial_state_def N_def upt_rec)
qed

text \<open>
  C10. \<^verbatim>\<open>actions\<close> lists exactly the empty cells with coordinates in \<open>[0, N)\<close>, each
  once, in row-major order (the order the spec fixes for the minimax tie-break).
\<close>

theorem actions_row_major:
  "set (actions b) = {(int r, int c) | r c. r < N \<and> c < N \<and> b ! r ! c = EMPTY} \<and>
   sorted_wrt row_major_less (actions b)"
proof
  show "set (actions b) = {(int r, int c) | r c. r < N \<and> c < N \<and> b ! r ! c = EMPTY}"
    by (auto simp: actions_def)
  have "sorted_wrt (\<lambda>x y. fst x < fst y \<or> fst x = fst y \<and> snd x < snd y)
          (List.product [0..<N] [0..<N])"
    by (rule sorted_wrt_product) simp_all
  then have "sorted_wrt (\<lambda>x y. fst x < fst y \<or> fst x = fst y \<and> snd x < snd y)
          (filter (\<lambda>(r, c). b ! r ! c = EMPTY) (List.product [0..<N] [0..<N]))"
    by (rule sorted_wrt_filter)
  then show "sorted_wrt row_major_less (actions b)"
    by (simp add: actions_filter sorted_wrt_map row_major_less_def case_prod_beta)
qed

text \<open>
  C15. The nested counting loop of \<^verbatim>\<open>_count_X_and_Os\<close> computes, on a board of the
  program's shape, the number of X marks and the number of O marks on the board.
\<close>

theorem count_X_and_Os_concat:
  assumes "wf_board b"
  shows "count_X_and_Os b = (count_list (concat b) (Some PX), count_list (concat b) (Some PO))"
  by (simp add: count_X_and_Os_cells board_cells_concat [OF assms])

theorem count_X_and_Os_concat_witness:
  "wf_board [[Some PX, Some PO, EMPTY], [EMPTY, Some PX, EMPTY], [EMPTY, EMPTY, EMPTY]] \<and>
   count_X_and_Os [[Some PX, Some PO, EMPTY], [EMPTY, Some PX, EMPTY], [EMPTY, EMPTY, EMPTY]] = (2, 1)"
proof -
  have wf: "wf_board [[Some PX, Some PO, EMPTY], [EMPTY, Some PX, EMPTY], [EMPTY, EMPTY, EMPTY]]"
    by simp
  show ?thesis using wf count_X_and_Os_concat [OF wf] by simp
qed

text \<open>
  C23. Round trip of a move through Python's indexing: after a successful
  \<^verbatim>\<open>result(board, (r, c))\<close>, reading \<^verbatim>\<open>new[r][c]\<close> with the same (possibly negative)
  indices gives the mark of the player who moved, and writing \<^verbatim>\<open>EMPTY\<close> back through
  them restores the original board (the undo a caller keeping history would do).
\<close>

theorem result_roundtrip:
  assumes "result b (r, c) = Inr b'"
  shows "(case py_get b' r of Inl e \<Rightarrow> Inl e | Inr row \<Rightarrow> py_get row c) = Inr (Some (player b)) \<and>
         (case py_get b' r of Inl e \<Rightarrow> Inl e | Inr row \<Rightarrow>
            (case py_set row c EMPTY of Inl e \<Rightarrow> Inl e | Inr row0 \<Rightarrow> py_set b' r row0)) = Inr b"
proof -
  obtain row row' where g: "py_get b r = Inr row" "py_get row c = Inr EMPTY"
    and s: "py_set row c (Some (player b)) = Inr row'" "py_set b r row' = Inr b'"
    using assms by (rule result_Inr_steps)
  have "py_get b' r = Inr row'" "py_get row' c = Inr (Some (player b))"
    using s by (simp_all add: py_get_set_same)
  moreover have "py_set row' c EMPTY = Inr row" "py_set b' r row = Inr b"
    using py_set_restore [OF g(2) s(1)] py_set_restore [OF g(1) s(2)] by simp_all
  ultimately show ?thesis by simp
qed

theorem result_roundtrip_witness:
  "(case py_get [[EMPTY, EMPTY, EMPTY], [EMPTY, EMPTY, EMPTY], [EMPTY, EMPTY, Some PX]] (-1) of
      Inl e \<Rightarrow> Inl e | Inr row \<Rightarrow> py_get row (-1)) = Inr (Some (player initial_state)) \<and>
   (case py_get [[EMPTY, EMPTY, EMPTY], [EMPTY, EMPTY, EMPTY], [EMPTY, EMPTY, Some PX]] (-1) of
      Inl e \<Rightarrow> Inl e | Inr row \<Rightarrow>
        (case py_set row (-1) EMPTY of Inl e \<Rightarrow> Inl e | Inr row0 \<Rightarrow>
           py_set [[EMPTY, EMPTY, EMPTY], [EMPTY, EMPTY, EMPTY], [EMPTY, EMPTY, Some PX]] (-1) row0))
     = Inr initial_state"
proof -
  have "result initial_state (-1, -1) =
      Inr [[EMPTY, EMPTY, EMPTY], [EMPTY, EMPTY, EMPTY], [EMPTY, EMPTY, Some PX]]"
    by (simp add: result_eq initial_state_def py_norm_def Let_def)
  then show ?thesis by (rule result_roundtrip)
qed

end
