(* ===== verification/Winner.thy ===== *)
theory Winner
  imports Board
begin

text \<open>
  Static evaluation of a board, lines 82--125 of \<^verbatim>\<open>src/tictactoe/tictactoe.py\<close>:
  \<^verbatim>\<open>winner\<close>, \<^verbatim>\<open>terminal\<close> and \<^verbatim>\<open>utility\<close>. The two \<^verbatim>\<open>for\<close> loops of
  \<^verbatim>\<open>winner\<close> are \<open>scan_rows\<close> and \<open>scan_cols\<close>: \<open>Some w\<close> is "the loop returned
  \<open>w\<close>" (and \<open>w\<close> may itself be \<^verbatim>\<open>None\<close>), \<open>None\<close> is "the loop finished". The
  chained comparison \<^verbatim>\<open>a == b == c\<close> is \<open>a = b \<and> b = c\<close>. Against it stands the
  spec's reading, \<open>winner_spec\<close>: the first line (rows, columns, main diagonal,
  anti-diagonal) holding three identical non-empty cells.
\<close>

section \<open>Operations\<close>

fun scan_rows :: "board \<Rightarrow> nat list \<Rightarrow> cell option" where
  "scan_rows board [] = None"
| "scan_rows board (r # rs) =
     (if board ! r ! 0 = board ! r ! 1 \<and> board ! r ! 1 = board ! r ! 2 then Some (board ! r ! 0)
      else scan_rows board rs)"

fun scan_cols :: "board \<Rightarrow> nat list \<Rightarrow> cell option" where
  "scan_cols board [] = None"
| "scan_cols board (c # cs) =
     (if board ! 0 ! c = board ! 1 ! c \<and> board ! 1 ! c = board ! 2 ! c then Some (board ! 0 ! c)
      else scan_cols board cs)"

definition winner :: "board \<Rightarrow> Player option" where
  "winner board =
     (case scan_rows board [0..<N] of Some w \<Rightarrow> w | None \<Rightarrow>
      (case scan_cols board [0..<N] of Some w \<Rightarrow> w | None \<Rightarrow>
       if board ! 0 ! 0 = board ! 1 ! 1 \<and> board ! 1 ! 1 = board ! 2 ! 2 then board ! 0 ! 0
       else if board ! 0 ! 2 = board ! 1 ! 1 \<and> board ! 1 ! 1 = board ! 2 ! 0 then board ! 0 ! 2
       else None))"

text \<open>
  \<^verbatim>\<open>winner(board) or len(actions(board)) == 0\<close>: a player string is truthy, so the
  value is true exactly when the winner is not \<^verbatim>\<open>None\<close> or no action is left.
\<close>

definition terminal :: "board \<Rightarrow> bool" where
  "terminal board \<longleftrightarrow> winner board \<noteq> None \<or> length (actions board) = 0"

definition utility :: "board \<Rightarrow> int" where
  "utility board =
     (let winning_player = winner board in
      if winning_player = Some PX then 1
      else if winning_player = Some PO then -1
      else 0)"

section \<open>Lines\<close>

text \<open>The eight lines of the board, in the order \<^verbatim>\<open>winner\<close> checks them.\<close>

definition lines :: "(nat \<times> nat) list list" where
  "lines = [[(r, 0), (r, 1), (r, 2)]. r \<leftarrow> [0..<N]] @
           [[(0, c), (1, c), (2, c)]. c \<leftarrow> [0..<N]] @
           [[(0, 0), (1, 1), (2, 2)], [(0, 2), (1, 1), (2, 0)]]"

definition line_cells :: "board \<Rightarrow> (nat \<times> nat) list \<Rightarrow> cell list" where
  "line_cells board l = map (\<lambda>(r, c). board ! r ! c) l"

definition uniform :: "cell list \<Rightarrow> bool" where
  "uniform cs \<longleftrightarrow> (\<forall>x \<in> set cs. x = hd cs)"

text \<open>The spec: three identical non-empty cells.\<close>

definition won_line :: "cell list \<Rightarrow> bool" where
  "won_line cs \<longleftrightarrow> uniform cs \<and> hd cs \<noteq> EMPTY"

definition winner_spec :: "board \<Rightarrow> Player option" where
  "winner_spec board =
     (case find (\<lambda>l. won_line (line_cells board l)) lines of
        None \<Rightarrow> None
      | Some l \<Rightarrow> hd (line_cells board l))"

definition row_line :: "nat \<Rightarrow> (nat \<times> nat) list" where
  "row_line r = [(r, 0), (r, 1), (r, 2)]"

definition col_line :: "nat \<Rightarrow> (nat \<times> nat) list" where
  "col_line c = [(0, c), (1, c), (2, c)]"

lemma lines_eq:
  "lines = [[(0, 0), (0, 1), (0, 2)], [(1, 0), (1, 1), (1, 2)], [(2, 0), (2, 1), (2, 2)],
            [(0, 0), (1, 0), (2, 0)], [(0, 1), (1, 1), (2, 1)], [(0, 2), (1, 2), (2, 2)],
            [(0, 0), (1, 1), (2, 2)], [(0, 2), (1, 1), (2, 0)]]"
  by (simp add: lines_def N_def upt_rec)

lemma uniform3 [simp]: "uniform [a, b, c] \<longleftrightarrow> a = b \<and> b = c"
  by (auto simp: uniform_def)

lemma lines_split:
  "lines = map row_line [0..<N] @ map col_line [0..<N] @
           [[(0, 0), (1, 1), (2, 2)], [(0, 2), (1, 1), (2, 0)]]"
  by (simp add: lines_def row_line_def col_line_def)

lemma scan_rows_find:
  "scan_rows b rs = map_option (\<lambda>r. b ! r ! 0) (find (\<lambda>r. uniform (line_cells b (row_line r))) rs)"
  by (induction rs) (auto simp: line_cells_def row_line_def)

lemma scan_cols_find:
  "scan_cols b cs = map_option (\<lambda>c. b ! 0 ! c) (find (\<lambda>c. uniform (line_cells b (col_line c))) cs)"
  by (induction cs) (auto simp: line_cells_def col_line_def)

text \<open>
  What the code computes: the value of the first line, in scan order, whose three cells
  are equal, empty or not.
\<close>

lemma winner_find:
  "winner b =
     (case find (\<lambda>l. uniform (line_cells b l)) lines of
        None \<Rightarrow> None
      | Some l \<Rightarrow> hd (line_cells b l))"
proof -
  let ?U = "\<lambda>l. uniform (line_cells b l)"
  show ?thesis
  proof (cases "find (\<lambda>r. ?U (row_line r)) [0..<N]")
    case (Some r)
    then show ?thesis
      by (simp add: winner_def scan_rows_find lines_split find_append_split find_map_comp comp_def
          line_cells_def row_line_def)
  next
    case None
    note rows = this
    show ?thesis
    proof (cases "find (\<lambda>c. ?U (col_line c)) [0..<N]")
      case (Some c)
      with rows show ?thesis
        by (simp add: winner_def scan_rows_find scan_cols_find lines_split find_append_split
            find_map_comp comp_def line_cells_def col_line_def)
    next
      case None
      with rows show ?thesis
        by (simp add: winner_def scan_rows_find scan_cols_find lines_split find_append_split
            find_map_comp comp_def line_cells_def)
    qed
  qed
qed

lemma uniform_line_cells:
  "l \<in> set lines \<Longrightarrow> uniform (line_cells b l) \<longleftrightarrow> (\<exists>h. line_cells b l = [h, h, h])"
  by (auto simp: lines_eq line_cells_def)

lemma find_uniform_Some:
  assumes "find (\<lambda>l. uniform (line_cells b l)) lines = Some l"
  shows "l \<in> set lines \<and> line_cells b l = [hd (line_cells b l), hd (line_cells b l), hd (line_cells b l)]"
proof -
  from assms have l: "l \<in> set lines" and u: "uniform (line_cells b l)"
    by (auto simp: find_Some_iff)
  from uniform_line_cells [OF l] u obtain h where "line_cells b l = [h, h, h]" by blast
  with l show ?thesis by simp
qed

section \<open>Properties\<close>

text \<open>
  C16. \<^verbatim>\<open>winner\<close> is sound: when it names a player, that player holds a whole
  row, column or diagonal.
\<close>

theorem winner_sound:
  assumes "winner b = Some p"
  shows "\<exists>l \<in> set lines. line_cells b l = [Some p, Some p, Some p]"
proof (cases "find (\<lambda>l. uniform (line_cells b l)) lines")
  case None
  with assms show ?thesis by (simp add: winner_find)
next
  case (Some l)
  with assms have "hd (line_cells b l) = Some p" by (simp add: winner_find)
  with find_uniform_Some [OF Some] show ?thesis by metis
qed

theorem winner_sound_witness:
  "winner [[Some PX, Some PX, Some PX], [Some PO, Some PO, EMPTY], [EMPTY, EMPTY, EMPTY]] = Some PX \<and>
   (\<exists>l \<in> set lines. line_cells [[Some PX, Some PX, Some PX], [Some PO, Some PO, EMPTY],
       [EMPTY, EMPTY, EMPTY]] l = [Some PX, Some PX, Some PX])"
proof -
  have w: "winner [[Some PX, Some PX, Some PX], [Some PO, Some PO, EMPTY], [EMPTY, EMPTY, EMPTY]]
      = Some PX"
    by (simp add: winner_def N_def upt_rec)
  show ?thesis using winner_sound [OF w] w by simp
qed

text \<open>
  C4. On a board where no row, column or diagonal is entirely empty, \<^verbatim>\<open>winner\<close>
  returns what the spec describes: the player of the first line, in the order rows,
  columns, main diagonal, anti-diagonal, holding three identical non-empty cells, and
  \<^verbatim>\<open>None\<close> when there is none.
\<close>

theorem winner_refines_spec:
  assumes "\<forall>l \<in> set lines. line_cells b l \<noteq> [EMPTY, EMPTY, EMPTY]"
  shows "winner b = winner_spec b"
proof -
  have "\<forall>l \<in> set lines. uniform (line_cells b l) \<longleftrightarrow> won_line (line_cells b l)"
  proof
    fix l assume l: "l \<in> set lines"
    with assms have ne: "line_cells b l \<noteq> [EMPTY, EMPTY, EMPTY]" by blast
    show "uniform (line_cells b l) \<longleftrightarrow> won_line (line_cells b l)"
    proof
      assume "uniform (line_cells b l)"
      with uniform_line_cells [OF l] obtain h where h: "line_cells b l = [h, h, h]" by blast
      with ne show "won_line (line_cells b l)" by (simp add: won_line_def)
    qed (simp add: won_line_def)
  qed
  then have "find (\<lambda>l. uniform (line_cells b l)) lines = find (\<lambda>l. won_line (line_cells b l)) lines"
    by (intro find_cong) simp_all
  then show ?thesis by (simp add: winner_find winner_spec_def)
qed

theorem winner_refines_spec_witness:
  "winner [[Some PX, Some PO, Some PX], [Some PX, Some PO, Some PO], [Some PO, Some PX, Some PX]] =
   winner_spec [[Some PX, Some PO, Some PX], [Some PX, Some PO, Some PO], [Some PO, Some PX, Some PX]]"
proof -
  have h: "\<forall>l \<in> set lines. line_cells [[Some PX, Some PO, Some PX], [Some PX, Some PO, Some PO],
       [Some PO, Some PX, Some PX]] l \<noteq> [EMPTY, EMPTY, EMPTY]"
    by (simp add: lines_eq line_cells_def)
  show ?thesis using h winner_refines_spec [OF h] by simp
qed

text \<open>
  C11. A board of the program's shape is terminal exactly when \<^verbatim>\<open>winner\<close> names a
  player or no cell is empty.
\<close>

theorem terminal_iff:
  assumes "wf_board b"
  shows "terminal b \<longleftrightarrow> winner b \<noteq> None \<or> EMPTY \<notin> set (concat b)"
  using assms by (simp add: terminal_def length_actions empties_def count_list_0_iff)

theorem terminal_iff_witness:
  "wf_board [[Some PX, Some PO, Some PX], [Some PX, Some PO, Some PO], [Some PO, Some PX, Some PX]] \<and>
   terminal [[Some PX, Some PO, Some PX], [Some PX, Some PO, Some PO], [Some PO, Some PX, Some PX]]"
proof -
  have wf: "wf_board [[Some PX, Some PO, Some PX], [Some PX, Some PO, Some PO],
      [Some PO, Some PX, Some PX]]"
    by simp
  show ?thesis using wf terminal_iff [OF wf] by simp
qed

text \<open>
  C24. Exactly when \<^verbatim>\<open>winner\<close> disagrees with the spec: the first line, in scan order,
  whose three cells are equal is an empty line, and some line is won. Then
  \<^verbatim>\<open>winner\<close> returns \<^verbatim>\<open>None\<close> where the spec names the holder of the first won line.
\<close>

theorem winner_misjudges_iff:
  "winner b \<noteq> winner_spec b \<longleftrightarrow>
     (\<exists>l. find (\<lambda>l. uniform (line_cells b l)) lines = Some l \<and> line_cells b l = [EMPTY, EMPTY, EMPTY]) \<and>
     winner_spec b \<noteq> None"
proof (cases "find (\<lambda>l. uniform (line_cells b l)) lines")
  case None
  then have "find (\<lambda>l. won_line (line_cells b l)) lines = None"
    by (rule find_None_mono) (simp add: won_line_def)
  with None show ?thesis by (simp add: winner_find winner_spec_def)
next
  case (Some l)
  define h where "h = hd (line_cells b l)"
  have cells: "line_cells b l = [h, h, h]"
    unfolding h_def using find_uniform_Some [OF Some] by blast
  show ?thesis
  proof (cases "h = EMPTY")
    case True
    with Some cells show ?thesis by (cases "winner_spec b") (simp_all add: winner_find)
  next
    case False
    with cells have won: "won_line (line_cells b l)" by (simp add: won_line_def)
    have "find (\<lambda>l. won_line (line_cells b l)) lines = Some l"
      by (rule find_Some_mono [where Q = "\<lambda>l. won_line (line_cells b l)", OF Some _ won])
        (simp add: won_line_def)
    with Some False cells show ?thesis by (simp add: winner_find winner_spec_def)
  qed
qed

theorem winner_misjudges_iff_witness:
  "winner [[EMPTY, EMPTY, EMPTY], [Some PX, Some PX, Some PX], [Some PO, Some PO, EMPTY]] \<noteq>
     winner_spec [[EMPTY, EMPTY, EMPTY], [Some PX, Some PX, Some PX], [Some PO, Some PO, EMPTY]] \<longleftrightarrow>
   (\<exists>l. find (\<lambda>l. uniform (line_cells [[EMPTY, EMPTY, EMPTY], [Some PX, Some PX, Some PX],
       [Some PO, Some PO, EMPTY]] l)) lines = Some l \<and>
     line_cells [[EMPTY, EMPTY, EMPTY], [Some PX, Some PX, Some PX], [Some PO, Some PO, EMPTY]] l
       = [EMPTY, EMPTY, EMPTY]) \<and>
   winner_spec [[EMPTY, EMPTY, EMPTY], [Some PX, Some PX, Some PX], [Some PO, Some PO, EMPTY]] \<noteq> None"
  by (rule winner_misjudges_iff)

end
