(* ===== verification/Minimax.thy ===== *)
theory Minimax
  imports Winner
begin

text \<open>
  The search, lines 128--181 of \<^verbatim>\<open>src/tictactoe/tictactoe.py\<close>: \<^verbatim>\<open>_max_value\<close>,
  \<^verbatim>\<open>_min_value\<close> and \<^verbatim>\<open>minimax\<close>. Each \<^verbatim>\<open>for action in actions(board)\<close> loop
  of the two value functions is a function of its own (\<open>max_loop\<close>, \<open>min_loop\<close>) that
  carries the accumulator \<^verbatim>\<open>v\<close>, started at \<^verbatim>\<open>float("-inf")\<close> or
  \<^verbatim>\<open>float("inf")\<close>; the four are one mutual recursion. An exception of
  \<^verbatim>\<open>result\<close> inside the loop propagates, as in Python. The recursion terminates because
  every successful \<^verbatim>\<open>result\<close> fills one empty cell (\<open>result_empties_less\<close>).
  Against the code stands the textbook specification of the AFP's game-tree evaluation:
  \<open>game_tree\<close> unfolds a board into its tree of positions, \<open>maxmin\<close>/\<open>minmax\<close>
  evaluate it.
\<close>

section \<open>The value functions\<close>

text \<open>
  The measure: first the empty cells of the board searched, then, within one board,
  the actions the loop has left (the call of a loop from its value function counts as
  one more).
\<close>

definition value_measure :: "board \<Rightarrow> nat \<times> nat" where
  "value_measure board = (empties board, Suc (length (actions board)))"

definition loop_measure :: "board \<times> ext_int \<times> action list \<Rightarrow> nat \<times> nat" where
  "loop_measure x = (case x of (board, v, rest) \<Rightarrow> (empties board, length rest))"

function max_value :: "board \<Rightarrow> ext_int py_result"
  and max_loop :: "board \<Rightarrow> ext_int \<Rightarrow> action list \<Rightarrow> ext_int py_result"
  and min_value :: "board \<Rightarrow> ext_int py_result"
  and min_loop :: "board \<Rightarrow> ext_int \<Rightarrow> action list \<Rightarrow> ext_int py_result" where
  "max_value board =
     (if terminal board then Inr (Fin (utility board))
      else max_loop board NegInf (actions board))"
| "max_loop board v [] = Inr v"
| "max_loop board v (action # rest) =
     (case result board action of Inl e \<Rightarrow> Inl e | Inr board' \<Rightarrow>
      (case min_value board' of Inl e \<Rightarrow> Inl e | Inr w \<Rightarrow> max_loop board (max v w) rest))"
| "min_value board =
     (if terminal board then Inr (Fin (utility board))
      else min_loop board PosInf (actions board))"
| "min_loop board v [] = Inr v"
| "min_loop board v (action # rest) =
     (case result board action of Inl e \<Rightarrow> Inl e | Inr board' \<Rightarrow>
      (case max_value board' of Inl e \<Rightarrow> Inl e | Inr w \<Rightarrow> min_loop board (min v w) rest))"
  by pat_completeness auto

termination
proof (relation "measures
    [\<lambda>x. fst (case_sum (case_sum value_measure loop_measure) (case_sum value_measure loop_measure) x),
     \<lambda>x. snd (case_sum (case_sum value_measure loop_measure) (case_sum value_measure loop_measure) x)]")
qed (auto simp: value_measure_def loop_measure_def dest: result_empties_less)

declare max_value.simps [simp del] min_value.simps [simp del]

section \<open>Specification: the game tree and its minimax evaluation\<close>

datatype 'a gtree = Lf 'a | Nd "'a gtree list"

fun maxmin :: "ext_int gtree \<Rightarrow> ext_int"
  and minmax :: "ext_int gtree \<Rightarrow> ext_int" where
  "maxmin (Lf x) = x"
| "maxmin (Nd ts) = foldr max (map minmax ts) NegInf"
| "minmax (Lf x) = x"
| "minmax (Nd ts) = foldr min (map maxmin ts) PosInf"

text \<open>The boards one legal move away, in the order of \<^verbatim>\<open>actions\<close>.\<close>

definition successors :: "board \<Rightarrow> board list" where
  "successors board = [b'. Inr b' \<leftarrow> map (result board) (actions board)]"

function game_tree :: "board \<Rightarrow> ext_int gtree" where
  "game_tree board =
     (if terminal board then Lf (Fin (utility board))
      else Nd (map game_tree (successors board)))"
  by pat_completeness auto
termination
  by (relation "measure empties")
    (auto simp: successors_def split: sum.splits intro: result_empties_less [OF sym])

declare game_tree.simps [simp del]

section \<open>\<^verbatim>\<open>minimax\<close>\<close>

text \<open>
  The \<^verbatim>\<open>for i in range(m)\<close> loop that fills \<^verbatim>\<open>values\<close>, in order, stopping at the
  first exception.
\<close>

fun fill_values :: "(board \<Rightarrow> ext_int py_result) \<Rightarrow> board \<Rightarrow> action list \<Rightarrow> ext_int list py_result" where
  "fill_values helper_func board [] = Inr []"
| "fill_values helper_func board (action # rest) =
     (case result board action of Inl e \<Rightarrow> Inl e | Inr board' \<Rightarrow>
      (case helper_func board' of Inl e \<Rightarrow> Inl e | Inr v \<Rightarrow>
       (case fill_values helper_func board rest of Inl e \<Rightarrow> Inl e | Inr vs \<Rightarrow> Inr (v # vs))))"

definition minimax :: "board \<Rightarrow> action option py_result" where
  "minimax board =
     (if terminal board then Inr None
      else
        (let possible_actions = actions board;
             current_player = player board;
             helper_func = (if current_player = PO then max_value else min_value);
             opt_func = (if current_player = PO then py_min else py_max)
         in (case fill_values helper_func board possible_actions of Inl e \<Rightarrow> Inl e | Inr values \<Rightarrow>
            (case opt_func values of Inl e \<Rightarrow> Inl e | Inr best \<Rightarrow>
            (case py_index values best of Inl e \<Rightarrow> Inl e | Inr i \<Rightarrow>
            (case py_get possible_actions (int i) of Inl e \<Rightarrow> Inl e | Inr a \<Rightarrow> Inr (Some a)))))))"

text \<open>
  The specification of a move's worth: the game-tree value of the board it leads to,
  with the opponent to move; and the value of the board for the player to move.
\<close>

definition move_value :: "board \<Rightarrow> action \<Rightarrow> ext_int" where
  "move_value board a =
     (case result board a of
        Inl _ \<Rightarrow> NegInf
      | Inr b' \<Rightarrow> if player board = PO then maxmin (game_tree b') else minmax (game_tree b'))"

definition game_value :: "board \<Rightarrow> ext_int" where
  "game_value board =
     (if player board = PO then minmax (game_tree board) else maxmin (game_tree board))"

section \<open>Cost: the calls the search makes\<close>

text \<open>
  The number of calls of \<^verbatim>\<open>_max_value\<close> and \<^verbatim>\<open>_min_value\<close> made by one call,
  itself included, written as the time functions of HOL's \<open>Data_Structures\<close>: each
  follows the recursion of the function it counts, line for line, and a loop stops where
  the code's loop stops, at the first \<^verbatim>\<open>result\<close> or recursive call that raises.
\<close>

function T_max_value :: "board \<Rightarrow> nat"
  and T_max_loop :: "board \<Rightarrow> action list \<Rightarrow> nat"
  and T_min_value :: "board \<Rightarrow> nat"
  and T_min_loop :: "board \<Rightarrow> action list \<Rightarrow> nat" where
  "T_max_value board = Suc (if terminal board then 0 else T_max_loop board (actions board))"
| "T_max_loop board [] = 0"
| "T_max_loop board (action # rest) =
     (case result board action of Inl e \<Rightarrow> 0 | Inr board' \<Rightarrow>
      (case min_value board' of Inl e \<Rightarrow> T_min_value board'
       | Inr w \<Rightarrow> T_min_value board' + T_max_loop board rest))"
| "T_min_value board = Suc (if terminal board then 0 else T_min_loop board (actions board))"
| "T_min_loop board [] = 0"
| "T_min_loop board (action # rest) =
     (case result board action of Inl e \<Rightarrow> 0 | Inr board' \<Rightarrow>
      (case max_value board' of Inl e \<Rightarrow> T_max_value board'
       | Inr w \<Rightarrow> T_max_value board' + T_min_loop board rest))"
  by pat_completeness auto

termination
proof (relation "measures
    [\<lambda>x. fst (case_sum (case_sum value_measure (\<lambda>(b, as). loop_measure (b, NegInf, as)))
                       (case_sum value_measure (\<lambda>(b, as). loop_measure (b, NegInf, as))) x),
     \<lambda>x. snd (case_sum (case_sum value_measure (\<lambda>(b, as). loop_measure (b, NegInf, as)))
                       (case_sum value_measure (\<lambda>(b, as). loop_measure (b, NegInf, as))) x)]")
qed (auto simp: value_measure_def loop_measure_def dest: result_empties_less)

declare T_max_value.simps [simp del] T_min_value.simps [simp del]

text \<open>
  The nodes of a complete game tree in which each of \<open>e\<close> empty cells may be filled next:
  \<open>1 + e + e (e - 1) + \<dots> + e!\<close>, which is 986410 for the empty board.
\<close>

primrec calls_bound :: "nat \<Rightarrow> nat" where
  "calls_bound 0 = 1"
| "calls_bound (Suc e) = Suc (Suc e * calls_bound e)"

section \<open>Lemmas on the game tree\<close>

lemma set_successors:
  "b' \<in> set (successors b) \<longleftrightarrow> (\<exists>a \<in> set (actions b). result b a = Inr b')"
  by (auto simp: successors_def split: sum.splits) metis

section \<open>The loops compute folds\<close>

lemma max_loop_foldr:
  assumes "\<forall>a \<in> set as. \<exists>b'. result b a = Inr b' \<and> min_value b' = Inr (f b')"
  shows "max_loop b v as = Inr (max v (foldr max (map f [b'. Inr b' \<leftarrow> map (result b) as]) NegInf))"
  using assms
proof (induction as arbitrary: v)
  case Nil then show ?case by simp
next
  case (Cons a as)
  then obtain b' where "result b a = Inr b'" "min_value b' = Inr (f b')" by auto
  with Cons show ?case by (simp add: max.assoc)
qed

lemma min_loop_foldr:
  assumes "\<forall>a \<in> set as. \<exists>b'. result b a = Inr b' \<and> max_value b' = Inr (f b')"
  shows "min_loop b v as = Inr (min v (foldr min (map f [b'. Inr b' \<leftarrow> map (result b) as]) PosInf))"
  using assms
proof (induction as arbitrary: v)
  case Nil then show ?case by simp
next
  case (Cons a as)
  then obtain b' where "result b a = Inr b'" "max_value b' = Inr (f b')" by auto
  with Cons show ?case by (simp add: min.assoc)
qed

text \<open>Every move of a board of the program's shape succeeds and leads to a smaller one.\<close>

lemma actions_step:
  assumes "wf_board b" "a \<in> set (actions b)"
  obtains b' where "result b a = Inr b'" "wf_board b'" "empties b' < empties b"
  using result_action_Inr [OF assms] result_wf [OF _ assms(1)] result_empties_less by blast

lemma value_refine:
  "wf_board b \<Longrightarrow> max_value b = Inr (maxmin (game_tree b)) \<and> min_value b = Inr (minmax (game_tree b))"
proof (induction "empties b" arbitrary: b rule: less_induct)
  case less
  show ?case
  proof (cases "terminal b")
    case True
    then show ?thesis
      by (simp add: max_value.simps min_value.simps game_tree.simps [of b])
  next
    case False
    have IH: "\<forall>a \<in> set (actions b). \<exists>b'. result b a = Inr b' \<and>
        max_value b' = Inr (maxmin (game_tree b')) \<and> min_value b' = Inr (minmax (game_tree b'))"
    proof
      fix a assume "a \<in> set (actions b)"
      with less.prems obtain b' where "result b a = Inr b'" "wf_board b'" "empties b' < empties b"
        by (rule actions_step)
      with less.hyps show "\<exists>b'. result b a = Inr b' \<and>
          max_value b' = Inr (maxmin (game_tree b')) \<and> min_value b' = Inr (minmax (game_tree b'))"
        by blast
    qed
    from IH have "\<forall>a \<in> set (actions b). \<exists>b'. result b a = Inr b' \<and>
        min_value b' = Inr (minmax (game_tree b'))" by blast
    from max_loop_foldr [OF this, of NegInf] False
    have "max_value b = Inr (maxmin (game_tree b))"
      by (simp add: max_value.simps [of b] game_tree.simps [of b] successors_def comp_def)
    moreover
    from IH have "\<forall>a \<in> set (actions b). \<exists>b'. result b a = Inr b' \<and>
        max_value b' = Inr (maxmin (game_tree b'))" by blast
    from min_loop_foldr [OF this, of PosInf] False
    have "min_value b = Inr (minmax (game_tree b))"
      by (simp add: min_value.simps [of b] game_tree.simps [of b] successors_def comp_def)
    ultimately show ?thesis ..
  qed
qed

lemma foldr_max_Max: "xs \<noteq> [] \<Longrightarrow> foldr max xs NegInf = Max (set xs)"
proof (induction xs)
  case Nil then show ?case by simp
next
  case (Cons x xs) then show ?case by (cases xs) auto
qed

lemma foldr_min_Min: "xs \<noteq> [] \<Longrightarrow> foldr min xs PosInf = Min (set xs)"
proof (induction xs)
  case Nil then show ?case by simp
next
  case (Cons x xs) then show ?case by (cases xs) auto
qed

lemma move_value_Inr:
  "result b a = Inr b' \<Longrightarrow>
     move_value b a = (if player b = PO then maxmin (game_tree b') else minmax (game_tree b'))"
  by (simp add: move_value_def)

text \<open>On a board of the program's shape each move's value is read off its successor.\<close>

lemma move_values_projr:
  assumes "wf_board b"
  shows "map (move_value b) (actions b) =
           map (\<lambda>a. if player b = PO then maxmin (game_tree (projr (result b a)))
                     else minmax (game_tree (projr (result b a)))) (actions b)"
proof (rule map_cong [OF refl])
  fix a assume "a \<in> set (actions b)"
  with result_action_Inr [OF assms] obtain b' where "result b a = Inr b'" by blast
  then show "move_value b a = (if player b = PO then maxmin (game_tree (projr (result b a)))
                     else minmax (game_tree (projr (result b a))))"
    by (simp add: move_value_Inr)
qed

lemma fill_values_map:
  assumes "\<forall>a \<in> set as. \<exists>b'. result b a = Inr b' \<and> h b' = Inr (g b')"
  shows "fill_values h b as = Inr (map (\<lambda>a. g (projr (result b a))) as)"
  using assms by (induction as) auto

lemma fill_values_eq:
  assumes "wf_board b"
  shows "fill_values (if player b = PO then max_value else min_value) b (actions b)
           = Inr (map (move_value b) (actions b))"
proof -
  let ?g = "\<lambda>b'. if player b = PO then maxmin (game_tree b') else minmax (game_tree b')"
  have "\<forall>a \<in> set (actions b). \<exists>b'. result b a = Inr b' \<and>
      (if player b = PO then max_value else min_value) b' = Inr (?g b')"
  proof
    fix a assume "a \<in> set (actions b)"
    with assms obtain b' where "result b a = Inr b'" "wf_board b'" by (rule actions_step)
    then show "\<exists>b'. result b a = Inr b' \<and>
        (if player b = PO then max_value else min_value) b' = Inr (?g b')"
      using value_refine by auto
  qed
  then show ?thesis by (simp add: fill_values_map move_values_projr [OF assms])
qed

lemma actions_nonterminal: "\<not> terminal b \<Longrightarrow> actions b \<noteq> []"
  by (simp add: terminal_def)

text \<open>The game value of a non-terminal board is the best of its move values.\<close>

lemma successors_map:
  assumes "wf_board b"
  shows "successors b = map (\<lambda>a. projr (result b a)) (actions b)"
proof -
  have "\<forall>a \<in> set as. \<exists>b'. result b a = Inr b' \<Longrightarrow>
      [b'. Inr b' \<leftarrow> map (result b) as] = map (\<lambda>a. projr (result b a)) as" for as
    by (induction as) auto
  with result_action_Inr [OF assms] show ?thesis by (simp add: successors_def)
qed

lemma game_value_moves:
  assumes "wf_board b" "\<not> terminal b"
  shows "game_value b =
           (if player b = PO then foldr min (map (move_value b) (actions b)) PosInf
            else foldr max (map (move_value b) (actions b)) NegInf)"
proof -
  from assms show ?thesis
    by (simp add: game_value_def game_tree.simps [of b] successors_map comp_def
        move_values_projr [OF assms(1)])
qed

text \<open>
  On a non-terminal board of the program's shape, \<^verbatim>\<open>minimax\<close> raises nothing and returns
  the action at \<^verbatim>\<open>values.index(best)\<close>, where \<^verbatim>\<open>best\<close> is the game value.
\<close>

lemma minimax_index:
  assumes "wf_board b" "\<not> terminal b"
  shows "\<exists>i. py_index (map (move_value b) (actions b)) (game_value b) = Inr i \<and>
             minimax b = Inr (Some (actions b ! i))"
proof -
  let ?vals = "map (move_value b) (actions b)"
  obtain a as where aa: "actions b = a # as"
    using actions_nonterminal [OF assms(2)] by (cases "actions b") auto
  have "(if player b = PO then py_min ?vals else py_max ?vals) =
      Inr (if player b = PO then Min (set ?vals) else Max (set ?vals))"
    by (cases "player b = PO") (simp_all add: aa fold_max_Max fold_min_Min)
  also have "(if player b = PO then Min (set ?vals) else Max (set ?vals)) = game_value b"
    using actions_nonterminal [OF assms(2)]
    by (cases "player b = PO") (simp_all add: game_value_moves [OF assms] foldr_max_Max foldr_min_Min)
  finally have best: "(if player b = PO then py_min ?vals else py_max ?vals) = Inr (game_value b)" .
  have "game_value b \<in> set ?vals"
    using best fold_max_mem [of "map (move_value b) as" "move_value b a"]
      fold_min_mem [of "map (move_value b) as" "move_value b a"]
    by (cases "player b = PO") (simp_all add: aa)
  from py_index_mem [OF this] obtain i where i: "py_index ?vals (game_value b) = Inr i" ..
  then have "i < length (actions b)" by (simp add: py_index_Inr_iff)
  then have "py_get (actions b) (int i) = Inr (actions b ! i)" by (rule py_get_nonneg)
  moreover have "minimax b = (case py_index ?vals (game_value b) of Inl e \<Rightarrow> Inl e | Inr i \<Rightarrow>
      (case py_get (actions b) (int i) of Inl e \<Rightarrow> Inl e | Inr a \<Rightarrow> Inr (Some a)))"
    using assms(2) best fill_values_eq [OF assms(1)]
    by (cases "player b = PO") (simp_all add: minimax_def Let_def)
  ultimately show ?thesis using i by simp
qed

text \<open>The move \<^verbatim>\<open>minimax\<close> returns is legal and worth the game value.\<close>

lemma minimax_move:
  assumes "wf_board b" "\<not> terminal b" "minimax b = Inr (Some a)"
  shows "a \<in> set (actions b) \<and> move_value b a = game_value b"
proof -
  obtain i where i: "py_index (map (move_value b) (actions b)) (game_value b) = Inr i"
    and m: "minimax b = Inr (Some (actions b ! i))"
    using minimax_index [OF assms(1,2)] by blast
  from i have "i < length (actions b)" "move_value b (actions b ! i) = game_value b"
    by (auto simp: py_index_Inr_iff)
  with m assms(3) show ?thesis by auto
qed

text \<open>No move is better for the player to move than the game value.\<close>

lemma move_value_bound:
  assumes "wf_board b" "\<not> terminal b" "a \<in> set (actions b)"
  shows "if player b = PO then game_value b \<le> move_value b a else move_value b a \<le> game_value b"
  using actions_nonterminal [OF assms(2)] assms(3)
  by (simp add: game_value_moves [OF assms(1,2)] foldr_max_Max foldr_min_Min)

lemma utility_range: "utility b \<in> {-1, 0, 1}"
  by (simp add: utility_def Let_def)

lemma Max_in_image:
  "xs \<noteq> [] \<Longrightarrow> set xs \<subseteq> Fin ` S \<Longrightarrow> Max (set xs) \<in> Fin ` S"
  using Max_in [of "set xs"] by auto

lemma Min_in_image:
  "xs \<noteq> [] \<Longrightarrow> set xs \<subseteq> Fin ` S \<Longrightarrow> Min (set xs) \<in> Fin ` S"
  using Min_in [of "set xs"] by auto

lemma successor_step:
  assumes "wf_board b" "b' \<in> set (successors b)"
  shows "wf_board b' \<and> empties b' < empties b"
proof -
  from assms(2) obtain a where "a \<in> set (actions b)" "result b a = Inr b'"
    by (auto simp: set_successors)
  with assms(1) show ?thesis using result_wf result_empties_less by blast
qed

lemma tree_values:
  "wf_board b \<Longrightarrow> maxmin (game_tree b) \<in> Fin ` {-1, 0, 1} \<and> minmax (game_tree b) \<in> Fin ` {-1, 0, 1}"
proof (induction "empties b" arbitrary: b rule: less_induct)
  case less
  show ?case
  proof (cases "terminal b")
    case True
    then show ?thesis using utility_range [of b] by (auto simp: game_tree.simps [of b])
  next
    case False
    let ?ts = "map game_tree (successors b)"
    have ne: "successors b \<noteq> []"
      using False by (simp add: successors_map [OF less.prems] actions_nonterminal)
    have sub: "set (map minmax ?ts) \<subseteq> Fin ` {-1, 0, 1} \<and> set (map maxmin ?ts) \<subseteq> Fin ` {-1, 0, 1}"
    proof (intro conjI subsetI)
      fix v assume "v \<in> set (map minmax ?ts)"
      then obtain b' where "b' \<in> set (successors b)" "v = minmax (game_tree b')" by auto
      with less.hyps successor_step [OF less.prems] show "v \<in> Fin ` {-1, 0, 1}" by blast
    next
      fix v assume "v \<in> set (map maxmin ?ts)"
      then obtain b' where "b' \<in> set (successors b)" "v = maxmin (game_tree b')" by auto
      with less.hyps successor_step [OF less.prems] show "v \<in> Fin ` {-1, 0, 1}" by blast
    qed
    have ne': "map minmax ?ts \<noteq> []" "map maxmin ?ts \<noteq> []" using ne by simp_all
    have "maxmin (game_tree b) = Max (set (map minmax ?ts))"
      using False ne' by (simp add: game_tree.simps [of b] foldr_max_Max)
    moreover have "minmax (game_tree b) = Min (set (map maxmin ?ts))"
      using False ne' by (simp add: game_tree.simps [of b] foldr_min_Min)
    moreover have "Max (set (map minmax ?ts)) \<in> Fin ` {-1, 0, 1}"
      using sub by (intro Max_in_image [OF ne'(1)]) blast
    moreover have "Min (set (map maxmin ?ts)) \<in> Fin ` {-1, 0, 1}"
      using sub by (intro Min_in_image [OF ne'(2)]) blast
    ultimately show ?thesis by (simp only:)
  qed
qed

lemma calls_bound_pos: "0 < calls_bound e"
  by (cases e) simp_all

lemma calls_bound_numeral: "calls_bound (numeral k) = Suc (numeral k * calls_bound (pred_numeral k))"
  by (simp add: numeral_eq_Suc)

lemma T_max_loop_le:
  "\<forall>a \<in> set as. \<exists>b' w. result b a = Inr b' \<and> min_value b' = Inr w \<and> T_min_value b' \<le> k
   \<Longrightarrow> T_max_loop b as \<le> length as * k"
  by (induction as) (auto simp: add_mono)

lemma T_min_loop_le:
  "\<forall>a \<in> set as. \<exists>b' w. result b a = Inr b' \<and> max_value b' = Inr w \<and> T_max_value b' \<le> k
   \<Longrightarrow> T_min_loop b as \<le> length as * k"
  by (induction as) (auto simp: add_mono)

section \<open>Properties\<close>

text \<open>
  C1. On a non-terminal board of the program's shape, \<^verbatim>\<open>minimax\<close> returns, without
  raising, the first action in the order of \<^verbatim>\<open>actions\<close> whose value is the game value of
  the board; no action is better for the player to move (X maximises, O minimises).
\<close>

theorem minimax_optimal:
  assumes "wf_board b" "\<not> terminal b"
  shows "\<exists>i < length (actions b).
           minimax b = Inr (Some (actions b ! i)) \<and>
           move_value b (actions b ! i) = game_value b \<and>
           (\<forall>k < i. move_value b (actions b ! k) \<noteq> game_value b) \<and>
           (\<forall>a \<in> set (actions b).
              if player b = PO then game_value b \<le> move_value b a else move_value b a \<le> game_value b)"
proof -
  obtain i where i: "py_index (map (move_value b) (actions b)) (game_value b) = Inr i"
    and m: "minimax b = Inr (Some (actions b ! i))"
    using minimax_index [OF assms] by blast
  from i have first: "i < length (actions b)" "move_value b (actions b ! i) = game_value b"
    "\<forall>k < i. move_value b (actions b ! k) \<noteq> game_value b"
    by (auto simp: py_index_Inr_iff)
  have opt: "\<forall>a \<in> set (actions b).
      if player b = PO then game_value b \<le> move_value b a else move_value b a \<le> game_value b"
    using move_value_bound [OF assms] by blast
  from first m opt show ?thesis by blast
qed

theorem minimax_optimal_witness:
  "wf_board [[Some PX, Some PX, EMPTY], [Some PO, Some PO, EMPTY], [EMPTY, EMPTY, EMPTY]] \<and>
   \<not> terminal [[Some PX, Some PX, EMPTY], [Some PO, Some PO, EMPTY], [EMPTY, EMPTY, EMPTY]] \<and>
   (\<exists>i < length (actions [[Some PX, Some PX, EMPTY], [Some PO, Some PO, EMPTY], [EMPTY, EMPTY, EMPTY]]).
      minimax [[Some PX, Some PX, EMPTY], [Some PO, Some PO, EMPTY], [EMPTY, EMPTY, EMPTY]] =
        Inr (Some (actions [[Some PX, Some PX, EMPTY], [Some PO, Some PO, EMPTY], [EMPTY, EMPTY, EMPTY]] ! i)))"
proof -
  let ?b = "[[Some PX, Some PX, EMPTY], [Some PO, Some PO, EMPTY], [EMPTY, EMPTY, EMPTY]]"
  have wf: "wf_board ?b" by simp
  have nt: "\<not> terminal ?b" by code_simp
  from wf nt minimax_optimal [OF wf nt] show ?thesis by blast
qed

text \<open>
  C2. On a board of the program's shape, \<^verbatim>\<open>_max_value\<close> and \<^verbatim>\<open>_min_value\<close> raise
  nothing and compute the maximiser's and the minimiser's minimax value of the board's
  game tree; that value is one of the utilities \<open>-1, 0, 1\<close>, never an infinity.
\<close>

theorem value_functions_refine:
  assumes "wf_board b"
  shows "max_value b = Inr (maxmin (game_tree b)) \<and> min_value b = Inr (minmax (game_tree b)) \<and>
         maxmin (game_tree b) \<in> Fin ` {-1, 0, 1} \<and> minmax (game_tree b) \<in> Fin ` {-1, 0, 1}"
  using value_refine [OF assms] tree_values [OF assms] by blast

theorem value_functions_refine_witness:
  "wf_board initial_state \<and>
   max_value initial_state = Inr (maxmin (game_tree initial_state)) \<and>
   min_value initial_state = Inr (minmax (game_tree initial_state)) \<and>
   maxmin (game_tree initial_state) \<in> Fin ` {-1, 0, 1} \<and>
   minmax (game_tree initial_state) \<in> Fin ` {-1, 0, 1}"
proof -
  have wf: "wf_board initial_state" by (simp add: initial_state_def)
  from wf value_functions_refine [OF wf] show ?thesis by blast
qed

text \<open>
  C3. On a board of the program's shape, \<^verbatim>\<open>minimax\<close> raises nothing, and it returns
  \<^verbatim>\<open>None\<close> exactly when the board is terminal.
\<close>

theorem minimax_none_iff_terminal:
  assumes "wf_board b"
  shows "\<exists>r. minimax b = Inr r \<and> (r = None \<longleftrightarrow> terminal b)"
proof (cases "terminal b")
  case True
  then show ?thesis by (simp add: minimax_def)
next
  case False
  with minimax_index [OF assms] show ?thesis by auto
qed

theorem minimax_none_iff_terminal_witness:
  "wf_board [[Some PX, Some PX, Some PX], [Some PO, Some PO, EMPTY], [EMPTY, EMPTY, EMPTY]] \<and>
   minimax [[Some PX, Some PX, Some PX], [Some PO, Some PO, EMPTY], [EMPTY, EMPTY, EMPTY]] = Inr None"
proof -
  let ?b = "[[Some PX, Some PX, Some PX], [Some PO, Some PO, EMPTY], [EMPTY, EMPTY, EMPTY]]"
  have wf: "wf_board ?b" by simp
  have t: "terminal ?b" by (simp add: terminal_def winner_def N_def upt_rec)
  from minimax_none_iff_terminal [OF wf] t wf show ?thesis by auto
qed

text \<open>
  C12. The search is bounded: from a board of the program's shape with \<open>e\<close> empty
  cells, one call of \<^verbatim>\<open>_max_value\<close> or \<^verbatim>\<open>_min_value\<close> makes, itself included,
  at most \<open>1 + e + e (e - 1) + \<dots> + e!\<close> calls of the two, since each recursive
  call is made once per action and every action fills one empty cell; from the empty
  board that is 986410 calls.
\<close>

theorem search_calls_bound:
  assumes "wf_board b"
  shows "T_max_value b \<le> calls_bound (empties b) \<and> T_min_value b \<le> calls_bound (empties b)"
  using assms
proof (induction "empties b" arbitrary: b rule: less_induct)
  case less
  show ?case
  proof (cases "terminal b")
    case True
    then show ?thesis
      using calls_bound_pos [of "empties b"] by (simp add: T_max_value.simps T_min_value.simps)
  next
    case False
    then obtain e where e: "empties b = Suc e"
      using length_actions [OF less.prems] actions_nonterminal [OF False] by (cases "empties b") auto
    have step: "\<exists>b' v w. result b a = Inr b' \<and> max_value b' = Inr v \<and> min_value b' = Inr w \<and>
        T_max_value b' \<le> calls_bound e \<and> T_min_value b' \<le> calls_bound e"
      if a: "a \<in> set (actions b)" for a
    proof -
      obtain b' where b': "result b a = Inr b'" "wf_board b'" "empties b' < empties b"
        using less.prems a by (rule actions_step)
      have "empties b' = e" using result_empties [OF b'(1)] e by simp
      with b' less.hyps [of b'] value_refine [OF b'(2)] show ?thesis by auto
    qed
    have "T_max_loop b (actions b) \<le> length (actions b) * calls_bound e"
      using step by (intro T_max_loop_le) blast
    moreover have "T_min_loop b (actions b) \<le> length (actions b) * calls_bound e"
      using step by (intro T_min_loop_le) blast
    ultimately show ?thesis
      using False e length_actions [OF less.prems] by (simp add: T_max_value.simps T_min_value.simps)
  qed
qed

theorem search_calls_bound_witness:
  "wf_board initial_state \<and> T_max_value initial_state \<le> 986410 \<and> T_min_value initial_state \<le> 986410"
proof -
  have wf: "wf_board initial_state" by (simp add: initial_state_def)
  have "empties initial_state = 9" by code_simp
  moreover have "calls_bound 9 = 986410" by (simp add: calls_bound_numeral)
  ultimately have "calls_bound (empties initial_state) = 986410" by simp
  with wf search_calls_bound [OF wf] show ?thesis by simp
qed

end
