(* ===== verification/Game.thy ===== *)
theory Game
  imports Minimax
begin

text \<open>
  The game the module serves (spec section 2): a caller starts from
  \<^verbatim>\<open>initial_state()\<close> and repeatedly applies \<^verbatim>\<open>result\<close> to an action drawn from
  \<^verbatim>\<open>actions\<close>. \<open>reachable\<close> is every board so produced; \<open>game_reachable\<close> adds the
  caller's check that the board is not yet terminal before each move. The invariant of
  the data model (spec section 3) is that the counts of X and O differ by 0 or 1 with X
  never behind; with it, \<^verbatim>\<open>player\<close> alternates.
\<close>

inductive reachable :: "board \<Rightarrow> bool" where
  start: "reachable initial_state"
| move: "reachable b \<Longrightarrow> a \<in> set (actions b) \<Longrightarrow> result b a = Inr b' \<Longrightarrow> reachable b'"

inductive game_reachable :: "board \<Rightarrow> bool" where
  start: "game_reachable initial_state"
| move: "game_reachable b \<Longrightarrow> \<not> terminal b \<Longrightarrow> a \<in> set (actions b) \<Longrightarrow> result b a = Inr b' \<Longrightarrow>
     game_reachable b'"

inductive_cases reachable_moveE: "reachable b'"

definition counts_ok :: "board \<Rightarrow> bool" where
  "counts_ok b \<longleftrightarrow> (case count_X_and_Os b of (nXs, nOs) \<Rightarrow> nXs = nOs \<or> nXs = Suc nOs)"

definition other :: "Player \<Rightarrow> Player" where
  "other p = (if p = PX then PO else PX)"

lemma game_reachable_reachable: "game_reachable b \<Longrightarrow> reachable b"
  by (induction rule: game_reachable.induct) (auto intro: reachable.intros)

lemma wf_initial_state: "wf_board initial_state"
  by (simp add: initial_state_def)

text \<open>A move adds one mark of the player to move and changes no other count.\<close>

lemma count_X_and_Os_result:
  assumes "wf_board b" "result b a = Inr b'"
  shows "count_X_and_Os b' =
           (case count_X_and_Os b of (nXs, nOs) \<Rightarrow>
              if player b = PX then (Suc nXs, nOs) else (nXs, Suc nOs))"
proof -
  have wf': "wf_board b'" by (rule result_wf [OF assms(2,1)])
  obtain i j where i: "i < length b" and j: "j < length (b ! i)" and e: "b ! i ! j = EMPTY"
    and b': "b' = b[i := (b ! i)[j := Some (player b)]]"
    using assms(2) by (rule result_Inr)
  have cnt: "count_list (concat b') x + (if EMPTY = x then 1 else 0)
      = count_list (concat b) x + (if Some (player b) = x then 1 else 0)" for x
  proof -
    have "count_list (concat b') x + count_list (b ! i) x
        = count_list (concat b) x + count_list ((b ! i)[j := Some (player b)]) x"
      unfolding b' by (rule count_list_concat_update [OF i])
    moreover have "count_list ((b ! i)[j := Some (player b)]) x + (if EMPTY = x then 1 else 0)
        = count_list (b ! i) x + (if Some (player b) = x then 1 else 0)"
      using count_list_update [OF j, of "Some (player b)" x] e by simp
    ultimately show ?thesis by simp
  qed
  show ?thesis
    using cnt [of "Some PX"] cnt [of "Some PO"]
    by (cases "player b") (simp_all add: count_X_and_Os_cells board_cells_concat assms(1) wf')
qed

lemma player_counts: "player b = PX \<longleftrightarrow> fst (count_X_and_Os b) = snd (count_X_and_Os b)"
  by (simp add: player_def split: prod.splits)

lemma counts_ok_result:
  assumes "wf_board b" "counts_ok b" "result b a = Inr b'"
  shows "counts_ok b' \<and> player b' = other (player b)"
  using assms count_X_and_Os_result [OF assms(1,3)]
  by (auto simp: counts_ok_def other_def player_def split: prod.splits if_splits)

lemma reachable_wf_counts: "reachable b \<Longrightarrow> wf_board b \<and> counts_ok b"
proof (induction rule: reachable.induct)
  case start
  show ?case
    by (simp add: wf_board_def counts_ok_def count_X_and_Os_cells board_cells_def
        initial_state_def N_def upt_rec)
next
  case (move b a b')
  then show ?case using result_wf counts_ok_result by blast
qed

lemma result_initial_corner:
  "result initial_state (0, 0) = Inr [[Some PX, EMPTY, EMPTY], [EMPTY, EMPTY, EMPTY], [EMPTY, EMPTY, EMPTY]]"
  by (simp add: result_eq initial_state_def py_norm_def Let_def)

section \<open>Properties\<close>

text \<open>
  C7. Every board reachable from \<^verbatim>\<open>initial_state()\<close> by moves from \<^verbatim>\<open>actions\<close> keeps the
  program's shape, and its number of X marks minus its number of O marks is 0 or 1.
\<close>

theorem reachable_invariant:
  assumes "reachable b"
  shows "wf_board b \<and>
         int (count_list (concat b) (Some PX)) - int (count_list (concat b) (Some PO)) \<in> {0, 1}"
proof -
  from reachable_wf_counts [OF assms] have wf: "wf_board b" and c: "counts_ok b" by auto
  from c show ?thesis
    by (auto simp: wf counts_ok_def count_X_and_Os_cells board_cells_concat [OF wf])
qed

theorem reachable_invariant_witness:
  "wf_board [[Some PX, EMPTY, EMPTY], [EMPTY, EMPTY, EMPTY], [EMPTY, EMPTY, EMPTY]] \<and>
   int (count_list (concat [[Some PX, EMPTY, EMPTY], [EMPTY, EMPTY, EMPTY], [EMPTY, EMPTY, EMPTY]]) (Some PX))
   - int (count_list (concat [[Some PX, EMPTY, EMPTY], [EMPTY, EMPTY, EMPTY], [EMPTY, EMPTY, EMPTY]]) (Some PO))
   \<in> {0, 1}"
proof -
  note result_initial_corner
  moreover have "(0, 0) \<in> set (actions initial_state)"
    by (simp add: actions_def initial_state_def N_def upt_rec)
  ultimately have "reachable [[Some PX, EMPTY, EMPTY], [EMPTY, EMPTY, EMPTY], [EMPTY, EMPTY, EMPTY]]"
    by (blast intro: reachable.move reachable.start)
  then show ?thesis by (rule reachable_invariant)
qed

text \<open>
  C8. On a reachable board, a successful move hands the turn to the other player:
  \<^verbatim>\<open>player\<close> alternates X, O, X, ...
\<close>

theorem player_alternates:
  assumes "reachable b" "result b a = Inr b'"
  shows "player b' = other (player b)"
  using reachable_wf_counts [OF assms(1)] counts_ok_result assms(2) by blast

theorem player_alternates_witness:
  "player [[Some PX, EMPTY, EMPTY], [EMPTY, EMPTY, EMPTY], [EMPTY, EMPTY, EMPTY]] = other (player initial_state)"
proof -
  show ?thesis by (rule player_alternates [OF reachable.start result_initial_corner])
qed

end
