(* ===== verification/Fast.thy ===== *)
theory Fast
  imports Minimax
begin

text \<open>
  The board queries of \<^verbatim>\<open>src/tictactoe/tictactoe.py\<close> specialised to the \<open>3 \<times> 3\<close>
  board, for evaluating large searches in the logic: \<open>fast_winner\<close>, \<open>fast_player\<close>,
  \<open>fast_terminal\<close>, \<open>fast_utility\<close> and \<open>board_succs\<close> read the cells by pattern
  matching and recursion on the rows instead of by index. Each is proved equal to the
  code's function (\<^verbatim>\<open>winner\<close>, \<^verbatim>\<open>player\<close>, \<^verbatim>\<open>terminal\<close>, \<^verbatim>\<open>utility\<close>, and
  \<^verbatim>\<open>result\<close> over \<^verbatim>\<open>actions\<close>) on every board of the program's shape, the scan
  order of \<^verbatim>\<open>winner\<close> and its early return on an empty line included.
\<close>

section \<open>Definitions\<close>

definition fast_winner :: "board \<Rightarrow> Player option" where
  "fast_winner b = (case b of
     [[a0, a1, a2], [b0, b1, b2], [c0, c1, c2]] \<Rightarrow>
       if a0 = a1 \<and> a1 = a2 then a0 else if b0 = b1 \<and> b1 = b2 then b0
       else if c0 = c1 \<and> c1 = c2 then c0 else if a0 = b0 \<and> b0 = c0 then a0
       else if a1 = b1 \<and> b1 = c1 then a1 else if a2 = b2 \<and> b2 = c2 then a2
       else if a0 = b1 \<and> b1 = c2 then a0 else if a2 = b1 \<and> b1 = c0 then a2 else None
   | _ \<Rightarrow> None)"

definition fast_player :: "board \<Rightarrow> Player" where
  "fast_player b =
     (if count_list (concat b) (Some PX) = count_list (concat b) (Some PO) then PX else PO)"

definition fast_terminal :: "board \<Rightarrow> bool" where
  "fast_terminal b \<longleftrightarrow> fast_winner b \<noteq> None \<or> EMPTY \<notin> set (concat b)"

definition fast_utility :: "board \<Rightarrow> int" where
  "fast_utility b = (if fast_winner b = Some PX then 1 else if fast_winner b = Some PO then -1 else 0)"

text \<open>The rows with one empty cell filled by \<open>m\<close>, in column order.\<close>

fun fill_holes :: "cell \<Rightarrow> cell list \<Rightarrow> cell list list" where
  "fill_holes m [] = []"
| "fill_holes m (x # xs) =
     (if x = EMPTY then (m # xs) # map (Cons x) (fill_holes m xs)
      else map (Cons x) (fill_holes m xs))"

text \<open>The boards with one empty cell filled by \<open>m\<close>, in row-major order.\<close>

fun board_succs :: "cell \<Rightarrow> board \<Rightarrow> board list" where
  "board_succs m [] = []"
| "board_succs m (row # rows) =
     map (\<lambda>r. r # rows) (fill_holes m row) @ map (Cons row) (board_succs m rows)"

section \<open>Successors\<close>

lemma fill_holes_eq:
  "fill_holes m row = [row[j := m]. j \<leftarrow> [0..<length row], row ! j = EMPTY]"
  by (induction row)
    (simp_all del: upt_Suc add: upt_0_Suc map_concat comp_def map_if_singleton list_update_code
      cong: if_cong)

lemma board_succs_eq:
  "board_succs m b =
     [b[i := (b ! i)[j := m]]. i \<leftarrow> [0..<length b], j \<leftarrow> [0..<length (b ! i)], b ! i ! j = EMPTY]"
  by (induction b)
    (simp_all del: upt_Suc add: upt_0_Suc fill_holes_eq map_concat comp_def map_if_singleton
      list_update_code cong: if_cong)

lemma successors_board_succs:
  assumes "wf_board b"
  shows "successors b = board_succs (Some (player b)) b"
proof -
  have cols: "map (\<lambda>a. projr (result b a)) [(int i, int j). j \<leftarrow> cs, b ! i ! j = EMPTY]
      = [b[i := (b ! i)[j := Some (player b)]]. j \<leftarrow> cs, b ! i ! j = EMPTY]"
    if "i < N" "\<forall>j \<in> set cs. j < N" for i cs
    using that by (induction cs) (simp_all add: result_nonneg [OF assms])
  have "successors b = map (\<lambda>a. projr (result b a)) (actions b)"
    by (rule successors_map [OF assms])
  also have "\<dots> = [b[i := (b ! i)[j := Some (player b)]].
                     i \<leftarrow> [0..<N], j \<leftarrow> [0..<N], b ! i ! j = EMPTY]"
    unfolding actions_def map_concat comp_def
    using cols by (intro arg_cong [where f = concat] map_cong) simp_all
  also have "\<dots> = board_succs (Some (player b)) b"
    unfolding board_succs_eq wf_board_length [OF assms]
    by (intro arg_cong [where f = concat] map_cong refl) (simp add: assms)
  finally show ?thesis .
qed

text \<open>Every successor fills one empty cell: the measure of the checker of \<open>Bounds\<close>.\<close>

lemma board_succs_empties:
  "c \<in> set (board_succs (Some p) b) \<Longrightarrow> Suc (empties c) = empties b"
  by (auto simp: board_succs_eq intro: empties_fill)

lemma fast_nonterminal_empties: "\<not> fast_terminal b \<Longrightarrow> 0 < empties b"
  using count_list_0_iff [of "concat b" EMPTY] by (simp add: fast_terminal_def empties_def)

lemma board_succs_measure:
  "\<not> fast_terminal b \<Longrightarrow> foldr max (map empties (board_succs (Some p) b)) 0 < empties b"
  using board_succs_empties [of _ p b] fast_nonterminal_empties [of b]
  by (intro foldr_max_less) fastforce+

section \<open>The queries\<close>

lemma fast_winner_3x3:
  "fast_winner [[a0, a1, a2], [b0, b1, b2], [c0, c1, c2]] =
     (if a0 = a1 \<and> a1 = a2 then a0 else if b0 = b1 \<and> b1 = b2 then b0
      else if c0 = c1 \<and> c1 = c2 then c0 else if a0 = b0 \<and> b0 = c0 then a0
      else if a1 = b1 \<and> b1 = c1 then a1 else if a2 = b2 \<and> b2 = c2 then a2
      else if a0 = b1 \<and> b1 = c2 then a0 else if a2 = b1 \<and> b1 = c0 then a2 else None)"
  by (simp only: fast_winner_def list.case)

lemma scan_rows_3x3:
  "scan_rows [[a0, a1, a2], [b0, b1, b2], [c0, c1, c2]] [0..<N] =
     (if a0 = a1 \<and> a1 = a2 then Some a0 else if b0 = b1 \<and> b1 = b2 then Some b0
      else if c0 = c1 \<and> c1 = c2 then Some c0 else None)"
  by (simp add: N_def upt_rec)

lemma scan_cols_3x3:
  "scan_cols [[a0, a1, a2], [b0, b1, b2], [c0, c1, c2]] [0..<N] =
     (if a0 = b0 \<and> b0 = c0 then Some a0 else if a1 = b1 \<and> b1 = c1 then Some a1
      else if a2 = b2 \<and> b2 = c2 then Some a2 else None)"
  by (simp add: N_def upt_rec)

text \<open>
  \<^verbatim>\<open>winner\<close> on a \<open>3 \<times> 3\<close> board, its scans unrolled (rewritten without splitting
  on the conditions, which would multiply the cases).
\<close>

lemma winner_3x3:
  "winner [[a0, a1, a2], [b0, b1, b2], [c0, c1, c2]] =
     (if a0 = a1 \<and> a1 = a2 then a0 else if b0 = b1 \<and> b1 = b2 then b0
      else if c0 = c1 \<and> c1 = c2 then c0 else if a0 = b0 \<and> b0 = c0 then a0
      else if a1 = b1 \<and> b1 = c1 then a1 else if a2 = b2 \<and> b2 = c2 then a2
      else if a0 = b1 \<and> b1 = c2 then a0 else if a2 = b1 \<and> b1 = c0 then a2 else None)"
  unfolding winner_def scan_rows_3x3 scan_cols_3x3 case_option_if option.case nth3 by (rule refl)

lemma fast_winner_eq: "wf_board b \<Longrightarrow> fast_winner b = winner b"
  by (erule wf_board_cases) (simp only: fast_winner_3x3 winner_3x3)

lemma fast_player_eq: "wf_board b \<Longrightarrow> fast_player b = player b"
  by (simp add: fast_player_def player_def count_X_and_Os_cells board_cells_concat)

lemma actions_Nil_all: "actions b = [] \<longleftrightarrow> (\<forall>i < N. \<forall>j < N. b ! i ! j \<noteq> EMPTY)"
  by (auto simp: actions_filter filter_empty_conv)

lemma actions_Nil_iff:
  assumes "wf_board b"
  shows "actions b = [] \<longleftrightarrow> EMPTY \<notin> set (concat b)"
proof -
  have "EMPTY \<in> set (board_cells b) \<longleftrightarrow> (\<exists>i < N. \<exists>j < N. b ! i ! j = EMPTY)"
    by (force simp: map_product_cells [symmetric])
  then show ?thesis by (simp add: actions_Nil_all board_cells_concat [OF assms])
qed

lemma fast_terminal_eq: "wf_board b \<Longrightarrow> fast_terminal b = terminal b"
  by (simp add: fast_terminal_def terminal_def fast_winner_eq actions_Nil_iff)

lemma fast_utility_eq: "wf_board b \<Longrightarrow> fast_utility b = utility b"
  unfolding fast_utility_def utility_def Let_def by (simp only: fast_winner_eq)

end
