(* ===== verification/Bounds.thy ===== *)
theory Bounds
  imports Fast
begin

text \<open>
  A decision procedure for bounds on the value \<^verbatim>\<open>_max_value\<close> and \<^verbatim>\<open>_min_value\<close>
  compute, for boards whose full search is too large to evaluate in the logic.
  \<open>bound mx ge v b\<close> decides whether the minimax value of \<open>b\<close> (with the maximiser to
  move when \<open>mx\<close>) is at least \<open>v\<close> (when \<open>ge\<close>) or at most \<open>v\<close>. It follows the
  search of the code over the specialised queries of \<open>Fast\<close>, but stops scanning the
  moves of a board as soon as the answer is known, as a null-window search does: for the
  maximiser and a lower bound one move meeting the bound suffices, for the maximiser and
  an upper bound every move must meet it, and dually for the minimiser. An empty list of
  moves meets the bound exactly when the start value of the code's loop
  (\<^verbatim>\<open>float("-inf")\<close> or \<^verbatim>\<open>float("inf")\<close>) does. \<open>bound_correct\<close> proves the
  procedure sound and complete against the game tree.
\<close>

section \<open>The checker\<close>

text \<open>The measure: the empty cells of the board, or of the fullest board of the list.\<close>

function bound :: "bool \<Rightarrow> bool \<Rightarrow> ext_int \<Rightarrow> board \<Rightarrow> bool"
  and bound_loop :: "bool \<Rightarrow> bool \<Rightarrow> ext_int \<Rightarrow> board list \<Rightarrow> bool" where
  "bound mx ge v b =
     (if fast_terminal b then (if ge then v \<le> Fin (fast_utility b) else Fin (fast_utility b) \<le> v)
      else bound_loop mx ge v (board_succs (Some (fast_player b)) b))"
| "bound_loop mx ge v [] =
     (if ge then v \<le> (if mx then NegInf else PosInf) else (if mx then NegInf else PosInf) \<le> v)"
| "bound_loop mx ge v (c # cs) =
     (if mx = ge then (if bound (\<not> mx) ge v c then True else bound_loop mx ge v cs)
      else (if bound (\<not> mx) ge v c then bound_loop mx ge v cs else False))"
  by pat_completeness auto
termination
  by (relation "measures
      [\<lambda>x. case x of Inl (mx, ge, v, b) \<Rightarrow> empties b | Inr (mx, ge, v, cs) \<Rightarrow> foldr max (map empties cs) 0,
       \<lambda>x. case x of Inl _ \<Rightarrow> 0 | Inr (mx, ge, v, cs) \<Rightarrow> Suc (length cs)]")
    (auto simp: board_succs_measure)

declare bound.simps(1) [simp del]

text \<open>The value of a board's game tree for the maximiser or the minimiser to move.\<close>

definition tree_value :: "bool \<Rightarrow> board \<Rightarrow> ext_int" where
  "tree_value mx b = (if mx then maxmin (game_tree b) else minmax (game_tree b))"

definition within :: "bool \<Rightarrow> ext_int \<Rightarrow> ext_int \<Rightarrow> bool" where
  "within ge v x \<longleftrightarrow> (if ge then v \<le> x else x \<le> v)"

section \<open>Soundness and completeness\<close>

lemma bound_loop_correct:
  assumes "\<forall>c \<in> set cs. bound (\<not> mx) ge v c = within ge v (tree_value (\<not> mx) c)"
  shows "bound_loop mx ge v cs =
           within ge v (if mx then foldr max (map (tree_value False) cs) NegInf
                        else foldr min (map (tree_value True) cs) PosInf)"
  using assms
  by (induction cs) (cases mx; cases ge; simp add: within_def le_max_iff_disj min_le_iff_disj)+

lemma bound_correct: "wf_board b \<Longrightarrow> bound mx ge v b = within ge v (tree_value mx b)"
proof (induction "empties b" arbitrary: b mx rule: less_induct)
  case less
  show ?case
  proof (cases "terminal b")
    case True
    with less.prems show ?thesis
      by (simp add: bound.simps [of mx ge v b] fast_terminal_eq fast_utility_eq tree_value_def
          within_def game_tree.simps [of b])
  next
    case False
    have IH: "\<forall>c \<in> set (successors b). bound (\<not> mx) ge v c = within ge v (tree_value (\<not> mx) c)"
      using less.hyps successor_step [OF less.prems] by blast
    from False less.prems have "bound mx ge v b = bound_loop mx ge v (successors b)"
      by (simp add: bound.simps [of mx ge v b] fast_terminal_eq fast_player_eq successors_board_succs)
    also have "\<dots> = within ge v (tree_value mx b)"
      using False
      by (simp add: bound_loop_correct [OF IH] tree_value_def [abs_def] game_tree.simps [of b] comp_def)
    finally show ?thesis .
  qed
qed

end
