(* ===== verification/Opening.thy ===== *)
theory Opening
  imports Bounds
begin

text \<open>
  The spec's end-to-end property: from \<^verbatim>\<open>initial_state()\<close>, \<^verbatim>\<open>minimax\<close> returns
  \<^verbatim>\<open>(0, 0)\<close>. The full search from the empty board visits 549946 positions, beyond
  evaluation in the logic; instead each of the nine boards one move in is settled with
  the checker of \<open>Bounds\<close>: its value, with O to move, is at least 0 and at most 0 (about
  28000 positions in all, each test stopping at the first refutation). Every opening
  move is therefore worth a draw, and the tie-break of \<^verbatim>\<open>values.index(best)\<close> picks
  the first action in row-major order.
\<close>

section \<open>The nine openings\<close>

lemma opening_00:
  "bound False True (Fin 0) [[Some PX, EMPTY, EMPTY], [EMPTY, EMPTY, EMPTY], [EMPTY, EMPTY, EMPTY]] \<and>
   bound False False (Fin 0) [[Some PX, EMPTY, EMPTY], [EMPTY, EMPTY, EMPTY], [EMPTY, EMPTY, EMPTY]]"
  by code_simp

lemma opening_01:
  "bound False True (Fin 0) [[EMPTY, Some PX, EMPTY], [EMPTY, EMPTY, EMPTY], [EMPTY, EMPTY, EMPTY]] \<and>
   bound False False (Fin 0) [[EMPTY, Some PX, EMPTY], [EMPTY, EMPTY, EMPTY], [EMPTY, EMPTY, EMPTY]]"
  by code_simp

lemma opening_02:
  "bound False True (Fin 0) [[EMPTY, EMPTY, Some PX], [EMPTY, EMPTY, EMPTY], [EMPTY, EMPTY, EMPTY]] \<and>
   bound False False (Fin 0) [[EMPTY, EMPTY, Some PX], [EMPTY, EMPTY, EMPTY], [EMPTY, EMPTY, EMPTY]]"
  by code_simp

lemma opening_10:
  "bound False True (Fin 0) [[EMPTY, EMPTY, EMPTY], [Some PX, EMPTY, EMPTY], [EMPTY, EMPTY, EMPTY]] \<and>
   bound False False (Fin 0) [[EMPTY, EMPTY, EMPTY], [Some PX, EMPTY, EMPTY], [EMPTY, EMPTY, EMPTY]]"
  by code_simp

lemma opening_11:
  "bound False True (Fin 0) [[EMPTY, EMPTY, EMPTY], [EMPTY, Some PX, EMPTY], [EMPTY, EMPTY, EMPTY]] \<and>
   bound False False (Fin 0) [[EMPTY, EMPTY, EMPTY], [EMPTY, Some PX, EMPTY], [EMPTY, EMPTY, EMPTY]]"
  by code_simp

lemma opening_12:
  "bound False True (Fin 0) [[EMPTY, EMPTY, EMPTY], [EMPTY, EMPTY, Some PX], [EMPTY, EMPTY, EMPTY]] \<and>
   bound False False (Fin 0) [[EMPTY, EMPTY, EMPTY], [EMPTY, EMPTY, Some PX], [EMPTY, EMPTY, EMPTY]]"
  by code_simp

lemma opening_20:
  "bound False True (Fin 0) [[EMPTY, EMPTY, EMPTY], [EMPTY, EMPTY, EMPTY], [Some PX, EMPTY, EMPTY]] \<and>
   bound False False (Fin 0) [[EMPTY, EMPTY, EMPTY], [EMPTY, EMPTY, EMPTY], [Some PX, EMPTY, EMPTY]]"
  by code_simp

lemma opening_21:
  "bound False True (Fin 0) [[EMPTY, EMPTY, EMPTY], [EMPTY, EMPTY, EMPTY], [EMPTY, Some PX, EMPTY]] \<and>
   bound False False (Fin 0) [[EMPTY, EMPTY, EMPTY], [EMPTY, EMPTY, EMPTY], [EMPTY, Some PX, EMPTY]]"
  by code_simp

lemma opening_22:
  "bound False True (Fin 0) [[EMPTY, EMPTY, EMPTY], [EMPTY, EMPTY, EMPTY], [EMPTY, EMPTY, Some PX]] \<and>
   bound False False (Fin 0) [[EMPTY, EMPTY, EMPTY], [EMPTY, EMPTY, EMPTY], [EMPTY, EMPTY, Some PX]]"
  by code_simp

section \<open>The values of the openings\<close>

lemma tree_value_zero:
  assumes "wf_board b" "bound False True (Fin 0) b \<and> bound False False (Fin 0) b"
  shows "tree_value False b = Fin 0"
  using assms(2) bound_correct [OF assms(1), of False True] bound_correct [OF assms(1), of False False]
  by (auto simp: within_def intro: order.antisym)

lemma wf_initial: "wf_board initial_state"
  by (simp add: initial_state_def)

lemma initial_nonterminal: "\<not> terminal initial_state"
  by (simp add: terminal_def initial_state_def winner_3x3 actions_def N_def upt_rec)

lemma successors_initial:
  "successors initial_state =
    [[[Some PX, EMPTY, EMPTY], [EMPTY, EMPTY, EMPTY], [EMPTY, EMPTY, EMPTY]],
     [[EMPTY, Some PX, EMPTY], [EMPTY, EMPTY, EMPTY], [EMPTY, EMPTY, EMPTY]],
     [[EMPTY, EMPTY, Some PX], [EMPTY, EMPTY, EMPTY], [EMPTY, EMPTY, EMPTY]],
     [[EMPTY, EMPTY, EMPTY], [Some PX, EMPTY, EMPTY], [EMPTY, EMPTY, EMPTY]],
     [[EMPTY, EMPTY, EMPTY], [EMPTY, Some PX, EMPTY], [EMPTY, EMPTY, EMPTY]],
     [[EMPTY, EMPTY, EMPTY], [EMPTY, EMPTY, Some PX], [EMPTY, EMPTY, EMPTY]],
     [[EMPTY, EMPTY, EMPTY], [EMPTY, EMPTY, EMPTY], [Some PX, EMPTY, EMPTY]],
     [[EMPTY, EMPTY, EMPTY], [EMPTY, EMPTY, EMPTY], [EMPTY, Some PX, EMPTY]],
     [[EMPTY, EMPTY, EMPTY], [EMPTY, EMPTY, EMPTY], [EMPTY, EMPTY, Some PX]]]"
  unfolding successors_board_succs [OF wf_initial] by (simp add: initial_state_def)

lemma player_initial: "player initial_state = PX"
  by (simp add: initial_state_def)

lemma move_values_initial: "map (move_value initial_state) (actions initial_state) = replicate 9 (Fin 0)"
proof -
  have "map (move_value initial_state) (actions initial_state) = map (tree_value False) (successors initial_state)"
    by (simp add: move_values_projr [OF wf_initial] successors_map [OF wf_initial] tree_value_def
        player_initial comp_def)
  also have "\<dots> = replicate 9 (Fin 0)"
    by (simp add: successors_initial numeral_eq_Suc tree_value_zero opening_00 opening_01 opening_02
        opening_10 opening_11 opening_12 opening_20 opening_21 opening_22)
  finally show ?thesis .
qed

lemma game_value_initial: "game_value initial_state = Fin 0"
  using game_value_moves [OF wf_initial initial_nonterminal] move_values_initial
  by (simp add: initial_state_def numeral_eq_Suc)

section \<open>Properties\<close>

text \<open>
  C18. The empty board is a draw under the program's rules: each of the nine first moves
  of X leads to a board of value 0, and so does the best of them.
\<close>

theorem opening_values:
  "map (move_value initial_state) (actions initial_state) = replicate 9 (Fin 0) \<and>
   game_value initial_state = Fin 0"
  by (simp add: move_values_initial game_value_initial)

text \<open>
  C19. \<^verbatim>\<open>minimax(initial_state())\<close> returns \<^verbatim>\<open>(0, 0)\<close> without raising: all nine
  moves tie at the game value, and \<^verbatim>\<open>values.index(best)\<close> picks the first action in
  row-major order.
\<close>

theorem minimax_initial_state: "minimax initial_state = Inr (Some (0, 0))"
proof -
  obtain i where i: "py_index (map (move_value initial_state) (actions initial_state))
      (game_value initial_state) = Inr i" and m: "minimax initial_state = Inr (Some (actions initial_state ! i))"
    using minimax_index [OF wf_initial initial_nonterminal] by blast
  from i have "i = 0"
    by (simp add: move_values_initial game_value_initial numeral_eq_Suc)
  with m show ?thesis
    by (simp add: actions_def initial_state_def N_def upt_rec)
qed

end
