(* ===== verification/Play.thy ===== *)
theory Play
  imports Game Opening
begin

text \<open>
  The caller's game loop (spec section 2: the caller repeatedly calls \<^verbatim>\<open>actions\<close>,
  chooses a move or asks \<^verbatim>\<open>minimax\<close>, applies \<^verbatim>\<open>result\<close> and checks
  \<^verbatim>\<open>terminal\<close>). The loop is not part of \<^verbatim>\<open>src/\<close>; it is modelled from the spec.
  The program plays one side \<open>p\<close> with \<^verbatim>\<open>minimax\<close>; the opponent is an arbitrary
  function that picks, on each board, one of the moves \<^verbatim>\<open>actions\<close> offers (by its
  position in the list), as the spec requires of a caller. The loop ends when the board is
  terminal, when \<^verbatim>\<open>minimax\<close> has no move, or when a call raises.
\<close>

section \<open>The loop\<close>

definition opponent_move :: "(board \<Rightarrow> nat) \<Rightarrow> board \<Rightarrow> action" where
  "opponent_move opp board = actions board ! (opp board mod length (actions board))"

function play :: "Player \<Rightarrow> (board \<Rightarrow> nat) \<Rightarrow> board \<Rightarrow> board py_result" where
  "play p opp board =
     (if terminal board then Inr board
      else (case (if player board = p then minimax board else Inr (Some (opponent_move opp board))) of
              Inl e \<Rightarrow> Inl e
            | Inr None \<Rightarrow> Inr board
            | Inr (Some a) \<Rightarrow>
                (case result board a of Inl e \<Rightarrow> Inl e | Inr board' \<Rightarrow> play p opp board')))"
  by pat_completeness auto
termination
  by (relation "measure (\<lambda>(p, opp, board). empties board)") (auto dest: result_empties_less)

declare play.simps [simp del]

text \<open>A caller that lets \<^verbatim>\<open>minimax\<close> move for both sides.\<close>

function selfplay :: "board \<Rightarrow> board py_result" where
  "selfplay board =
     (if terminal board then Inr board
      else (case minimax board of
              Inl e \<Rightarrow> Inl e
            | Inr None \<Rightarrow> Inr board
            | Inr (Some a) \<Rightarrow> (case result board a of Inl e \<Rightarrow> Inl e | Inr board' \<Rightarrow> selfplay board')))"
  by pat_completeness auto
termination
  by (relation "measure empties") (auto dest: result_empties_less)

declare selfplay.simps [simp del]

section \<open>Lemmas\<close>

lemma opponent_move_legal: "\<not> terminal b \<Longrightarrow> opponent_move opp b \<in> set (actions b)"
  using actions_nonterminal [of b] by (simp add: opponent_move_def)

text \<open>The move each side makes on a non-terminal board of the program's shape.\<close>

lemma play_step:
  assumes "wf_board b" "\<not> terminal b"
  obtains a b' where "a \<in> set (actions b)" "result b a = Inr b'" "play p opp b = play p opp b'"
    "player b = p \<Longrightarrow> move_value b a = game_value b"
proof (cases "player b = p")
  case True
  obtain i where "minimax b = Inr (Some (actions b ! i))"
    using minimax_index [OF assms] by blast
  with minimax_move [OF assms this] obtain a where m: "minimax b = Inr (Some a)"
    and a: "a \<in> set (actions b)" "move_value b a = game_value b" by blast
  from result_action_Inr [OF assms(1) a(1)] obtain b' where r: "result b a = Inr b'" ..
  from a r that show ?thesis
    using assms(2) True m by (simp add: play.simps [of p opp b])
next
  case False
  let ?a = "opponent_move opp b"
  have a: "?a \<in> set (actions b)" by (rule opponent_move_legal [OF assms(2)])
  from result_action_Inr [OF assms(1) a] obtain b' where r: "result b ?a = Inr b'" ..
  from a r that show ?thesis
    using assms(2) False by (simp add: play.simps [of p opp b])
qed

lemma game_value_terminal: "terminal b \<Longrightarrow> game_value b = Fin (utility b)"
  by (simp add: game_value_def game_tree.simps [of b])

text \<open>After a move the mover's value of the move is the value of the new board.\<close>

lemma move_value_successor:
  assumes "reachable b" "result b a = Inr b'"
  shows "move_value b a = game_value b'"
proof -
  from reachable_wf_counts [OF assms(1)] have "wf_board b" "counts_ok b" by auto
  with counts_ok_result assms(2) have "player b' = other (player b)" by blast
  with assms(2) show ?thesis
    by (cases "player b") (simp_all add: move_value_Inr other_def game_value_def)
qed

text \<open>
  The loop terminates with a terminal board from every board of the program's shape,
  whichever side the program plays and whatever the opponent picks.
\<close>

lemma play_ends: "wf_board b \<Longrightarrow> \<exists>e. play p opp b = Inr e \<and> terminal e"
proof (induction "empties b" arbitrary: b rule: less_induct)
  case less
  show ?case
  proof (cases "terminal b")
    case True
    then show ?thesis by (simp add: play.simps [of p opp b])
  next
    case False
    then obtain a b' where "a \<in> set (actions b)" "result b a = Inr b'" "play p opp b = play p opp b'"
      using play_step [OF less.prems] by metis
    with less.hyps less.prems show ?thesis
      using result_wf result_empties_less by metis
  qed
qed

text \<open>
  The side \<^verbatim>\<open>minimax\<close> plays secures at least the game value of every reachable board:
  at a terminal board the value is its utility; a move of \<^verbatim>\<open>minimax\<close> keeps the value;
  a move of the opponent can only improve it for the program.
\<close>

lemma play_secures:
  "reachable b \<Longrightarrow> play p opp b = Inr e \<Longrightarrow>
     terminal e \<and> (if p = PX then game_value b \<le> Fin (utility e) else Fin (utility e) \<le> game_value b)"
proof (induction "empties b" arbitrary: b rule: less_induct)
  case less
  have wf: "wf_board b" using reachable_wf_counts [OF less.prems(1)] by blast
  show ?case
  proof (cases "terminal b")
    case True
    with less.prems(2) show ?thesis
      by (simp add: play.simps [of p opp b] game_value_terminal)
  next
    case False
    obtain a b' where a: "a \<in> set (actions b)" and r: "result b a = Inr b'"
      and pl: "play p opp b = play p opp b'" and mv: "player b = p \<Longrightarrow> move_value b a = game_value b"
      using play_step [OF wf False] by metis
    have reach': "reachable b'" by (rule reachable.move [OF less.prems(1) a r])
    have IH: "terminal e \<and> (if p = PX then game_value b' \<le> Fin (utility e) else Fin (utility e) \<le> game_value b')"
      using less.hyps [OF result_empties_less [OF r] reach'] less.prems(2) pl by simp
    have val: "move_value b a = game_value b'" by (rule move_value_successor [OF less.prems(1) r])
    show ?thesis
    proof (cases "player b = p")
      case True
      with IH val mv show ?thesis by simp
    next
      case False
      with IH val move_value_bound [OF wf \<open>\<not> terminal b\<close> a] show ?thesis
        by (cases p; cases "player b") (auto intro: order.trans)
    qed
  qed
qed

text \<open>
  Against itself \<^verbatim>\<open>minimax\<close> keeps the game value at every move, so the game ends at a
  reachable terminal board whose utility is the game value of the start.
\<close>

lemma selfplay_value:
  "reachable b \<Longrightarrow> \<exists>e. selfplay b = Inr e \<and> reachable e \<and> terminal e \<and> Fin (utility e) = game_value b"
proof (induction "empties b" arbitrary: b rule: less_induct)
  case less
  have wf: "wf_board b" using reachable_wf_counts [OF less.prems] by blast
  show ?case
  proof (cases "terminal b")
    case True
    with less.prems show ?thesis by (simp add: selfplay.simps [of b] game_value_terminal)
  next
    case False
    obtain i where "minimax b = Inr (Some (actions b ! i))"
      using minimax_index [OF wf False] by blast
    with minimax_move [OF wf False this] obtain a where m: "minimax b = Inr (Some a)"
      and a: "a \<in> set (actions b)" "move_value b a = game_value b" by blast
    from result_action_Inr [OF wf a(1)] obtain b' where r: "result b a = Inr b'" ..
    have reach': "reachable b'" by (rule reachable.move [OF less.prems a(1) r])
    have "game_value b' = game_value b"
      using move_value_successor [OF less.prems r] a(2) by simp
    moreover have "selfplay b = selfplay b'"
      using False m r by (simp add: selfplay.simps [of b])
    ultimately show ?thesis
      using less.hyps [OF result_empties_less [OF r] reach'] by simp
  qed
qed

text \<open>A board reached after seven moves, with O to move and two cells left.\<close>

lemma reachable_late:
  "reachable [[Some PX, Some PX, Some PO], [Some PO, Some PO, Some PX], [Some PX, EMPTY, EMPTY]]"
proof -
  have r1: "reachable [[Some PX, EMPTY, EMPTY], [EMPTY, EMPTY, EMPTY], [EMPTY, EMPTY, EMPTY]]"
    by (rule reachable.move [OF reachable.start, of "(0, 0)"]; code_simp)
  have r2: "reachable [[Some PX, EMPTY, EMPTY], [EMPTY, Some PO, EMPTY], [EMPTY, EMPTY, EMPTY]]"
    by (rule reachable.move [OF r1, of "(1, 1)"]; code_simp)
  have r3: "reachable [[Some PX, Some PX, EMPTY], [EMPTY, Some PO, EMPTY], [EMPTY, EMPTY, EMPTY]]"
    by (rule reachable.move [OF r2, of "(0, 1)"]; code_simp)
  have r4: "reachable [[Some PX, Some PX, Some PO], [EMPTY, Some PO, EMPTY], [EMPTY, EMPTY, EMPTY]]"
    by (rule reachable.move [OF r3, of "(0, 2)"]; code_simp)
  have r5: "reachable [[Some PX, Some PX, Some PO], [EMPTY, Some PO, EMPTY], [Some PX, EMPTY, EMPTY]]"
    by (rule reachable.move [OF r4, of "(2, 0)"]; code_simp)
  have r6: "reachable [[Some PX, Some PX, Some PO], [Some PO, Some PO, EMPTY], [Some PX, EMPTY, EMPTY]]"
    by (rule reachable.move [OF r5, of "(1, 0)"]; code_simp)
  show ?thesis
    by (rule reachable.move [OF r6, of "(1, 2)"]; code_simp)
qed

section \<open>Properties\<close>

text \<open>
  C20. The game loop ends: from every board of the program's shape, whichever side
  \<^verbatim>\<open>minimax\<close> plays and whatever legal moves the opponent picks, the loop returns a
  terminal board without raising.
\<close>

theorem play_terminates:
  assumes "wf_board b"
  shows "\<exists>e. play p opp b = Inr e \<and> terminal e"
  by (rule play_ends [OF assms])

theorem play_terminates_witness:
  "\<exists>e. play PO (\<lambda>_. 0) initial_state = Inr e \<and> terminal e"
  by (rule play_terminates) (simp add: initial_state_def)

text \<open>
  C21. From every reachable board, the side \<^verbatim>\<open>minimax\<close> plays ends the game with a
  utility at least as good for it as the board's game value, whatever the opponent does:
  X (maximising) ends at a utility at least the game value, O at most.
\<close>

theorem play_secures_value:
  assumes "reachable b" "play p opp b = Inr e"
  shows "terminal e \<and>
         (if p = PX then game_value b \<le> Fin (utility e) else Fin (utility e) \<le> game_value b)"
  by (rule play_secures [OF assms])

theorem play_secures_value_witness:
  "terminal [[Some PX, Some PX, Some PO], [Some PO, Some PO, Some PX], [Some PX, Some PO, Some PX]] \<and>
   (if PX = PX then game_value [[Some PX, Some PX, Some PO], [Some PO, Some PO, Some PX], [Some PX, EMPTY, EMPTY]] \<le> Fin (utility [[Some PX, Some PX, Some PO], [Some PO, Some PO, Some PX], [Some PX, Some PO, Some PX]])
    else Fin (utility [[Some PX, Some PX, Some PO], [Some PO, Some PO, Some PX], [Some PX, Some PO, Some PX]]) \<le> game_value [[Some PX, Some PX, Some PO], [Some PO, Some PO, Some PX], [Some PX, EMPTY, EMPTY]])"
proof -
  have "play PX (\<lambda>_. 0) [[Some PX, Some PX, Some PO], [Some PO, Some PO, Some PX], [Some PX, EMPTY, EMPTY]] = Inr [[Some PX, Some PX, Some PO], [Some PO, Some PO, Some PX], [Some PX, Some PO, Some PX]]"
    by code_simp
  then show ?thesis by (rule play_secures_value [OF reachable_late])
qed

text \<open>
  C22. \<^verbatim>\<open>minimax\<close> never loses from the empty board: playing X against any opponent
  the game ends at a terminal board of utility at least 0, playing O at most 0.
\<close>

theorem minimax_never_loses:
  "(\<exists>e. play PX opp initial_state = Inr e \<and> terminal e \<and> 0 \<le> utility e) \<and>
   (\<exists>e. play PO opp initial_state = Inr e \<and> terminal e \<and> utility e \<le> 0)"
proof -
  have start: "reachable initial_state" by (rule reachable.start)
  have "\<exists>e. play p opp initial_state = Inr e \<and> terminal e \<and>
      (if p = PX then Fin 0 \<le> Fin (utility e) else Fin (utility e) \<le> Fin 0)" for p
  proof -
    obtain e where e: "play p opp initial_state = Inr e"
      using play_ends [OF wf_initial] by blast
    with play_secures [OF start e] show ?thesis by (cases p) (simp_all add: game_value_initial)
  qed
  from this [of PX] this [of PO] show ?thesis by auto
qed

text \<open>
  C25. \<^verbatim>\<open>minimax\<close> playing both sides from the empty board ends in a draw: the game
  stops without raising at a full board on which \<^verbatim>\<open>winner\<close> names no one.
\<close>

theorem selfplay_draw:
  "\<exists>e. selfplay initial_state = Inr e \<and> terminal e \<and> winner e = None \<and> EMPTY \<notin> set (concat e)"
proof -
  obtain e where e: "selfplay initial_state = Inr e" "reachable e" "terminal e"
    and u: "Fin (utility e) = game_value initial_state"
    using selfplay_value [OF reachable.start] by blast
  from u have "utility e = 0" by (simp add: game_value_initial)
  then have w: "winner e = None"
  proof (cases "winner e")
    case (Some p)
    with \<open>utility e = 0\<close> show ?thesis by (cases p) (simp_all add: utility_def)
  qed
  have wf: "wf_board e" using reachable_wf_counts [OF e(2)] by blast
  from e(3) w have "actions e = []" by (simp add: terminal_def)
  with actions_Nil_iff [OF wf] have "EMPTY \<notin> set (concat e)" by simp
  with e w show ?thesis by blast
qed

end
