(* ===== verification/Any_Board.thy ===== *)
theory Any_Board
  imports Winner
begin

text \<open>
  The board queries of \<^verbatim>\<open>src/tictactoe/tictactoe.py\<close> on any list of lists, as Python
  runs them. The model of \<open>Board\<close> and \<open>Winner\<close> reads \<^verbatim>\<open>board[r][c]\<close> with HOL's
  \<open>!\<close>, which is faithful only where the index is in range. Here every read is
  \<open>cell_at\<close>, Python's two subscriptions, which raise \<^verbatim>\<open>IndexError\<close> on a short
  board; the loops stop at the first read that raises. The chained comparison
  \<^verbatim>\<open>a == b == c\<close> evaluates \<^verbatim>\<open>c\<close> only when \<^verbatim>\<open>a == b\<close> (\<open>chain_eq\<close>), and
  \<^verbatim>\<open>winner(board) or len(actions(board)) == 0\<close> calls \<^verbatim>\<open>actions\<close> only when there is
  no winner, so a malformed board may be judged without an exception. \<^verbatim>\<open>result\<close>
  evaluates \<^verbatim>\<open>player(board)\<close>, the right-hand side of its assignment, after its
  checks and before the store.
\<close>

section \<open>Reading a cell\<close>

definition cell_at :: "board \<Rightarrow> nat \<Rightarrow> nat \<Rightarrow> cell py_result" where
  "cell_at board r c = (case py_get board (int r) of Inl e \<Rightarrow> Inl e | Inr row \<Rightarrow> py_get row (int c))"

text \<open>\<^verbatim>\<open>board[a] == board[b] == board[c]\<close>, left to right, stopping at the first unequal pair.\<close>

definition chain_eq :: "board \<Rightarrow> nat \<times> nat \<Rightarrow> nat \<times> nat \<Rightarrow> nat \<times> nat \<Rightarrow> bool py_result" where
  "chain_eq board a b c =
     (case cell_at board (fst a) (snd a) of Inl e \<Rightarrow> Inl e | Inr x \<Rightarrow>
      (case cell_at board (fst b) (snd b) of Inl e \<Rightarrow> Inl e | Inr y \<Rightarrow>
       if x \<noteq> y then Inr False
       else (case cell_at board (fst c) (snd c) of Inl e \<Rightarrow> Inl e | Inr z \<Rightarrow> Inr (y = z))))"

section \<open>\<^verbatim>\<open>_count_X_and_Os\<close>, \<^verbatim>\<open>player\<close>, \<^verbatim>\<open>actions\<close>\<close>

definition count_cell :: "cell \<Rightarrow> nat \<times> nat \<Rightarrow> nat \<times> nat" where
  "count_cell x = (\<lambda>(nXs, nOs).
     if x = Some PX then (Suc nXs, nOs) else if x = Some PO then (nXs, Suc nOs) else (nXs, nOs))"

fun count_loop :: "board \<Rightarrow> (nat \<times> nat) list \<Rightarrow> nat \<times> nat \<Rightarrow> (nat \<times> nat) py_result" where
  "count_loop board [] acc = Inr acc"
| "count_loop board ((r, c) # rest) acc =
     (case cell_at board r c of Inl e \<Rightarrow> Inl e | Inr x \<Rightarrow> count_loop board rest (count_cell x acc))"

definition count_X_and_Os_any :: "board \<Rightarrow> (nat \<times> nat) py_result" where
  "count_X_and_Os_any board = count_loop board (List.product [0..<N] [0..<N]) (0, 0)"

definition player_any :: "board \<Rightarrow> Player py_result" where
  "player_any board =
     (case count_X_and_Os_any board of Inl e \<Rightarrow> Inl e
      | Inr (nXs, nOs) \<Rightarrow> Inr (if nXs = nOs then PX else PO))"

fun actions_loop :: "board \<Rightarrow> (nat \<times> nat) list \<Rightarrow> action list \<Rightarrow> action list py_result" where
  "actions_loop board [] possible = Inr possible"
| "actions_loop board ((r, c) # rest) possible =
     (case cell_at board r c of Inl e \<Rightarrow> Inl e | Inr x \<Rightarrow>
      actions_loop board rest (if x = EMPTY then possible @ [(int r, int c)] else possible))"

definition actions_any :: "board \<Rightarrow> action list py_result" where
  "actions_any board = actions_loop board (List.product [0..<N] [0..<N]) []"

section \<open>\<^verbatim>\<open>result\<close>\<close>

definition result_any :: "board \<Rightarrow> action \<Rightarrow> board py_result" where
  "result_any board action = (case action of (r, c) \<Rightarrow>
     (case py_get board r of Inl e \<Rightarrow> Inl e | Inr row \<Rightarrow>
     (case py_get row c of Inl e \<Rightarrow> Inl e | Inr cell \<Rightarrow>
      if cell \<noteq> EMPTY then Inl (NameError ''ValidationError'')
      else (case player_any board of Inl e \<Rightarrow> Inl e | Inr p \<Rightarrow>
            (case py_set row c (Some p) of Inl e \<Rightarrow> Inl e | Inr row' \<Rightarrow>
             py_set board r row')))))"

section \<open>\<^verbatim>\<open>winner\<close>, \<^verbatim>\<open>terminal\<close>, \<^verbatim>\<open>utility\<close>\<close>

fun scan_rows_any :: "board \<Rightarrow> nat list \<Rightarrow> cell option py_result" where
  "scan_rows_any board [] = Inr None"
| "scan_rows_any board (r # rs) =
     (case chain_eq board (r, 0) (r, 1) (r, 2) of Inl e \<Rightarrow> Inl e
      | Inr True \<Rightarrow> (case cell_at board r 0 of Inl e \<Rightarrow> Inl e | Inr x \<Rightarrow> Inr (Some x))
      | Inr False \<Rightarrow> scan_rows_any board rs)"

fun scan_cols_any :: "board \<Rightarrow> nat list \<Rightarrow> cell option py_result" where
  "scan_cols_any board [] = Inr None"
| "scan_cols_any board (c # cs) =
     (case chain_eq board (0, c) (1, c) (2, c) of Inl e \<Rightarrow> Inl e
      | Inr True \<Rightarrow> (case cell_at board 0 c of Inl e \<Rightarrow> Inl e | Inr x \<Rightarrow> Inr (Some x))
      | Inr False \<Rightarrow> scan_cols_any board cs)"

definition winner_any :: "board \<Rightarrow> Player option py_result" where
  "winner_any board =
     (case scan_rows_any board [0..<N] of Inl e \<Rightarrow> Inl e | Inr (Some w) \<Rightarrow> Inr w | Inr None \<Rightarrow>
      (case scan_cols_any board [0..<N] of Inl e \<Rightarrow> Inl e | Inr (Some w) \<Rightarrow> Inr w | Inr None \<Rightarrow>
       (case chain_eq board (0, 0) (1, 1) (2, 2) of Inl e \<Rightarrow> Inl e
        | Inr True \<Rightarrow> cell_at board 0 0
        | Inr False \<Rightarrow>
          (case chain_eq board (0, 2) (1, 1) (2, 0) of Inl e \<Rightarrow> Inl e
           | Inr True \<Rightarrow> cell_at board 0 2
           | Inr False \<Rightarrow> Inr None))))"

definition terminal_any :: "board \<Rightarrow> bool py_result" where
  "terminal_any board =
     (case winner_any board of Inl e \<Rightarrow> Inl e | Inr w \<Rightarrow>
      if w \<noteq> None then Inr True
      else (case actions_any board of Inl e \<Rightarrow> Inl e | Inr acts \<Rightarrow> Inr (length acts = 0)))"

definition utility_any :: "board \<Rightarrow> int py_result" where
  "utility_any board =
     (case winner_any board of Inl e \<Rightarrow> Inl e | Inr winning_player \<Rightarrow>
      Inr (if winning_player = Some PX then 1 else if winning_player = Some PO then -1 else 0))"

text \<open>A board the queries can read in full: at least \<open>N\<close> rows of at least \<open>N\<close> cells.\<close>

definition fits :: "board \<Rightarrow> bool" where
  "fits board \<longleftrightarrow> N \<le> length board \<and> (\<forall>r < N. N \<le> length (board ! r))"

section \<open>Lemmas\<close>

lemma fits_3:
  "fits b \<longleftrightarrow> 3 \<le> length b \<and> 3 \<le> length (b ! 0) \<and> 3 \<le> length (b ! 1) \<and> 3 \<le> length (b ! 2)"
  by (simp add: fits_def N_def numeral_3_eq_3 numeral_2_eq_2 All_less_Suc conj_ac)

lemma cell_at_Inr: "r < length b \<Longrightarrow> c < length (b ! r) \<Longrightarrow> cell_at b r c = Inr (b ! r ! c)"
  by (simp add: cell_at_def py_get_nonneg)

lemma cell_at_Inl: "cell_at b r c = Inl e \<Longrightarrow> e = IndexError"
  by (auto simp: cell_at_def py_get_Inl_iff split: sum.splits)

lemma cell_at_fits: "fits b \<Longrightarrow> r < N \<Longrightarrow> c < N \<Longrightarrow> cell_at b r c = Inr (b ! r ! c)"
  by (auto simp: fits_def intro!: cell_at_Inr)

text \<open>A board that does not fit has a cell the scans read that raises.\<close>

lemma not_fits_cell:
  assumes "\<not> fits b"
  obtains r c where "r < N" "c < N" "cell_at b r c = Inl IndexError"
proof (cases "length b < N")
  case True
  then have "cell_at b (length b) 0 = Inl IndexError"
    by (simp add: cell_at_def py_get_eq)
  with True that [of "length b" 0] show ?thesis by (simp add: N_def)
next
  case False
  with assms obtain r where r: "r < N" "length (b ! r) < N" by (auto simp: fits_def)
  with False have "py_get b (int r) = Inr (b ! r)" by (simp add: py_get_nonneg)
  then have "cell_at b r (length (b ! r)) = Inl IndexError"
    by (simp add: cell_at_def py_get_eq)
  with r that show ?thesis by blast
qed

lemma fits_iff_cells: "fits b \<longleftrightarrow> (\<forall>r < N. \<forall>c < N. \<exists>x. cell_at b r c = Inr x)"
  by (metis cell_at_fits not_fits_cell sum.distinct(1))

lemma product_cells_iff: "(r, c) \<in> set (List.product [0..<N] [0..<N]) \<longleftrightarrow> r < N \<and> c < N"
  by simp

text \<open>The loops over the cells: the value of the 3-by-3 model when every read succeeds,
  \<^verbatim>\<open>IndexError\<close> as soon as one fails.\<close>

lemma count_loop_Inr:
  "\<forall>(r, c) \<in> set ps. cell_at b r c = Inr (b ! r ! c) \<Longrightarrow>
     count_loop b ps acc = Inr (fold (count_step b) ps acc)"
  by (induction ps arbitrary: acc) (auto simp: count_step_def count_cell_def)

lemma count_loop_Inl:
  "\<exists>(r, c) \<in> set ps. cell_at b r c = Inl IndexError \<Longrightarrow> count_loop b ps acc = Inl IndexError"
proof (induction b ps acc rule: count_loop.induct)
  case (2 b r c rest acc)
  then show ?case by (cases "cell_at b r c") (auto dest: cell_at_Inl)
qed simp

lemma actions_loop_Inr:
  "\<forall>(r, c) \<in> set ps. cell_at b r c = Inr (b ! r ! c) \<Longrightarrow>
     actions_loop b ps acc =
       Inr (acc @ map (\<lambda>(r, c). (int r, int c)) (filter (\<lambda>(r, c). b ! r ! c = EMPTY) ps))"
  by (induction ps arbitrary: acc) auto

lemma actions_loop_Inl:
  "\<exists>(r, c) \<in> set ps. cell_at b r c = Inl IndexError \<Longrightarrow> actions_loop b ps acc = Inl IndexError"
proof (induction b ps acc rule: actions_loop.induct)
  case (2 b r c rest acc)
  then show ?case by (cases "cell_at b r c") (auto dest: cell_at_Inl)
qed simp

lemma all_cells_fits:
  "fits b \<Longrightarrow> \<forall>(r, c) \<in> set (List.product [0..<N] [0..<N]). cell_at b r c = Inr (b ! r ! c)"
  by (auto simp: cell_at_fits)

lemma some_cell_not_fits:
  "\<not> fits b \<Longrightarrow> \<exists>(r, c) \<in> set (List.product [0..<N] [0..<N]). cell_at b r c = Inl IndexError"
  by (erule not_fits_cell) fastforce

lemma count_X_and_Os_any_eq:
  "count_X_and_Os_any b = (if fits b then Inr (count_X_and_Os b) else Inl IndexError)"
  by (simp add: count_X_and_Os_any_def count_X_and_Os_def count_loop_Inr [OF all_cells_fits]
      count_loop_Inl [OF some_cell_not_fits])

lemma player_any_eq: "player_any b = (if fits b then Inr (player b) else Inl IndexError)"
  by (simp add: player_any_def player_def count_X_and_Os_any_eq split: prod.splits)

lemma actions_any_eq: "actions_any b = (if fits b then Inr (actions b) else Inl IndexError)"
  by (simp add: actions_any_def actions_filter actions_loop_Inr [OF all_cells_fits]
      actions_loop_Inl [OF some_cell_not_fits])

text \<open>\<^verbatim>\<open>result\<close> raises what the model's \<open>result\<close> raises, and on a board that does not
  fit it raises \<^verbatim>\<open>IndexError\<close> from \<^verbatim>\<open>player\<close> where the model's would succeed.\<close>

lemma result_any_eq:
  "result_any b a = (case result b a of Inl e \<Rightarrow> Inl e | Inr b' \<Rightarrow> if fits b then Inr b' else Inl IndexError)"
  by (cases a) (auto simp: result_any_def result_def player_any_eq py_set_Inl_iff split: sum.splits)

lemma result_fits: "result b a = Inr b' \<Longrightarrow> fits b \<Longrightarrow> fits b'"
  by (erule result_Inr) (auto simp: fits_def nth_list_update)

lemma chain_eq_fits:
  "fits b \<Longrightarrow> r1 < N \<Longrightarrow> c1 < N \<Longrightarrow> r2 < N \<Longrightarrow> c2 < N \<Longrightarrow> r3 < N \<Longrightarrow> c3 < N \<Longrightarrow>
     chain_eq b (r1, c1) (r2, c2) (r3, c3) = Inr (b ! r1 ! c1 = b ! r2 ! c2 \<and> b ! r2 ! c2 = b ! r3 ! c3)"
  by (simp add: chain_eq_def cell_at_fits)

lemma chain_eq_Inl: "chain_eq b p q s = Inl e \<Longrightarrow> e = IndexError"
  by (auto simp: chain_eq_def split: sum.splits if_splits dest: cell_at_Inl)

lemma scan_rows_any_fits:
  "fits b \<Longrightarrow> \<forall>r \<in> set rs. r < N \<Longrightarrow> scan_rows_any b rs = Inr (scan_rows b rs)"
  by (induction rs) (simp_all add: chain_eq_fits cell_at_fits case_bool_if N_def)

lemma scan_cols_any_fits:
  "fits b \<Longrightarrow> \<forall>c \<in> set cs. c < N \<Longrightarrow> scan_cols_any b cs = Inr (scan_cols b cs)"
  by (induction cs) (simp_all add: chain_eq_fits cell_at_fits case_bool_if N_def)

lemma scan_rows_any_Inl: "scan_rows_any b rs = Inl e \<Longrightarrow> e = IndexError"
  by (induction rs) (auto split: sum.splits bool.splits dest: chain_eq_Inl cell_at_Inl)

lemma scan_cols_any_Inl: "scan_cols_any b cs = Inl e \<Longrightarrow> e = IndexError"
  by (induction cs) (auto split: sum.splits bool.splits dest: chain_eq_Inl cell_at_Inl)

lemma winner_any_fits: "fits b \<Longrightarrow> winner_any b = Inr (winner b)"
  by (simp add: winner_any_def winner_def scan_rows_any_fits scan_cols_any_fits chain_eq_fits
      cell_at_fits case_bool_if N_def split: option.split)

text \<open>Every exception of the scans is an \<^verbatim>\<open>IndexError\<close>.\<close>

lemma winner_any_Inl: "winner_any b = Inl e \<Longrightarrow> e = IndexError"
  by (auto simp: winner_any_def split: sum.splits option.splits bool.splits
      dest: scan_rows_any_Inl scan_cols_any_Inl chain_eq_Inl cell_at_Inl)

lemma terminal_any_eq:
  "terminal_any b =
     (if fits b then Inr (terminal b)
      else (case winner_any b of Inl e \<Rightarrow> Inl e | Inr w \<Rightarrow> if w \<noteq> None then Inr True else Inl IndexError))"
  by (simp add: terminal_any_def terminal_def winner_any_fits actions_any_eq split: sum.split)

lemma utility_any_fits: "fits b \<Longrightarrow> utility_any b = Inr (utility b)"
  by (simp add: utility_any_def utility_def winner_any_fits)

text \<open>The queries read only the cells \<open>r, c < N\<close>.\<close>

lemma same_cells_queries:
  assumes "\<And>r c. r < N \<Longrightarrow> c < N \<Longrightarrow> b' ! r ! c = b ! r ! c"
  shows "player b' = player b \<and> actions b' = actions b \<and> winner b' = winner b"
proof -
  have "board_cells b' = board_cells b"
    unfolding board_cells_def by (intro arg_cong [where f = concat] map_cong refl) (simp add: assms)
  moreover have "actions b' = actions b"
    unfolding actions_def by (intro arg_cong [where f = concat] map_cong refl) (simp add: assms)
  moreover have "\<forall>l \<in> set lines. line_cells b' l = line_cells b l"
    by (simp add: lines_eq line_cells_def assms N_def)
  then have "winner b' = winner b"
  proof -
    assume eq: "\<forall>l \<in> set lines. line_cells b' l = line_cells b l"
    then have f: "find (\<lambda>l. uniform (line_cells b' l)) lines = find (\<lambda>l. uniform (line_cells b l)) lines"
      by (intro find_cong) simp_all
    show ?thesis
    proof (cases "find (\<lambda>l. uniform (line_cells b l)) lines")
      case (Some l)
      then have "l \<in> set lines" by (auto simp: find_Some_iff)
      with Some f eq show ?thesis by (simp add: winner_find)
    qed (simp add: winner_find f)
  qed
  ultimately show ?thesis by (simp add: player_def count_X_and_Os_cells)
qed

section \<open>Properties\<close>

text \<open>
  C26. On every board with at least three rows of at least three cells (larger boards
  included, whose extra cells the scans never read) the queries run as Python runs them
  raise nothing and return what the 3-by-3 model of \<open>Board\<close> and \<open>Winner\<close> returns;
  \<^verbatim>\<open>result\<close> behaves exactly as that model's \<open>result\<close>.
\<close>

theorem any_queries_refine:
  assumes "fits b"
  shows "player_any b = Inr (player b) \<and> actions_any b = Inr (actions b) \<and>
         winner_any b = Inr (winner b) \<and> terminal_any b = Inr (terminal b) \<and>
         utility_any b = Inr (utility b) \<and> (\<forall>a. result_any b a = result b a)"
  using assms
  by (simp add: player_any_eq actions_any_eq winner_any_fits terminal_any_eq utility_any_fits
      result_any_eq split: sum.split)

theorem any_queries_refine_witness:
  "player_any [[Some PX, Some PO, EMPTY, EMPTY], [EMPTY, EMPTY, EMPTY, EMPTY], [EMPTY, EMPTY, EMPTY, EMPTY], [EMPTY, EMPTY, EMPTY, Some PO]] = Inr (player [[Some PX, Some PO, EMPTY, EMPTY], [EMPTY, EMPTY, EMPTY, EMPTY], [EMPTY, EMPTY, EMPTY, EMPTY], [EMPTY, EMPTY, EMPTY, Some PO]]) \<and>
   actions_any [[Some PX, Some PO, EMPTY, EMPTY], [EMPTY, EMPTY, EMPTY, EMPTY], [EMPTY, EMPTY, EMPTY, EMPTY], [EMPTY, EMPTY, EMPTY, Some PO]] = Inr (actions [[Some PX, Some PO, EMPTY, EMPTY], [EMPTY, EMPTY, EMPTY, EMPTY], [EMPTY, EMPTY, EMPTY, EMPTY], [EMPTY, EMPTY, EMPTY, Some PO]]) \<and>
   winner_any [[Some PX, Some PO, EMPTY, EMPTY], [EMPTY, EMPTY, EMPTY, EMPTY], [EMPTY, EMPTY, EMPTY, EMPTY], [EMPTY, EMPTY, EMPTY, Some PO]] = Inr (winner [[Some PX, Some PO, EMPTY, EMPTY], [EMPTY, EMPTY, EMPTY, EMPTY], [EMPTY, EMPTY, EMPTY, EMPTY], [EMPTY, EMPTY, EMPTY, Some PO]]) \<and>
   terminal_any [[Some PX, Some PO, EMPTY, EMPTY], [EMPTY, EMPTY, EMPTY, EMPTY], [EMPTY, EMPTY, EMPTY, EMPTY], [EMPTY, EMPTY, EMPTY, Some PO]] = Inr (terminal [[Some PX, Some PO, EMPTY, EMPTY], [EMPTY, EMPTY, EMPTY, EMPTY], [EMPTY, EMPTY, EMPTY, EMPTY], [EMPTY, EMPTY, EMPTY, Some PO]]) \<and>
   utility_any [[Some PX, Some PO, EMPTY, EMPTY], [EMPTY, EMPTY, EMPTY, EMPTY], [EMPTY, EMPTY, EMPTY, EMPTY], [EMPTY, EMPTY, EMPTY, Some PO]] = Inr (utility [[Some PX, Some PO, EMPTY, EMPTY], [EMPTY, EMPTY, EMPTY, EMPTY], [EMPTY, EMPTY, EMPTY, EMPTY], [EMPTY, EMPTY, EMPTY, Some PO]]) \<and>
   (\<forall>a. result_any [[Some PX, Some PO, EMPTY, EMPTY], [EMPTY, EMPTY, EMPTY, EMPTY], [EMPTY, EMPTY, EMPTY, EMPTY], [EMPTY, EMPTY, EMPTY, Some PO]] a = result [[Some PX, Some PO, EMPTY, EMPTY], [EMPTY, EMPTY, EMPTY, EMPTY], [EMPTY, EMPTY, EMPTY, EMPTY], [EMPTY, EMPTY, EMPTY, Some PO]] a)"
  by (rule any_queries_refine) (simp add: fits_3)

text \<open>
  C28. On a board with fewer than three rows, or with a short row among the first three,
  \<^verbatim>\<open>_count_X_and_Os\<close>, \<^verbatim>\<open>player\<close> and \<^verbatim>\<open>actions\<close> raise \<^verbatim>\<open>IndexError\<close>, and
  \<^verbatim>\<open>result\<close> never returns a board: it raises at its own checks or, after them, in
  \<^verbatim>\<open>player(board)\<close>.
\<close>

theorem short_board_raises:
  assumes "\<not> fits b"
  shows "count_X_and_Os_any b = Inl IndexError \<and> player_any b = Inl IndexError \<and>
         actions_any b = Inl IndexError \<and> (\<forall>a b'. result_any b a \<noteq> Inr b')"
  using assms
  by (simp add: count_X_and_Os_any_eq player_any_eq actions_any_eq result_any_eq split: sum.split)

theorem short_board_raises_witness:
  "count_X_and_Os_any [[EMPTY, EMPTY, EMPTY], [EMPTY, EMPTY, EMPTY]] = Inl IndexError \<and>
   player_any [[EMPTY, EMPTY, EMPTY], [EMPTY, EMPTY, EMPTY]] = Inl IndexError \<and>
   actions_any [[EMPTY, EMPTY, EMPTY], [EMPTY, EMPTY, EMPTY]] = Inl IndexError \<and>
   (\<forall>a b'. result_any [[EMPTY, EMPTY, EMPTY], [EMPTY, EMPTY, EMPTY]] a \<noteq> Inr b')"
  by (rule short_board_raises) (simp add: fits_3)

text \<open>
  C30. On a board larger than 3 by 3, \<^verbatim>\<open>result\<close> accepts a move on an empty cell outside
  the playing area, which the spec says must fail: it returns a new board on which
  \<^verbatim>\<open>player\<close>, \<^verbatim>\<open>actions\<close> and \<^verbatim>\<open>winner\<close> are unchanged, so the same player is to
  move again.
\<close>

theorem off_board_move:
  assumes "fits b" "\<not> (i < N \<and> j < N)" "i < length b" "j < length (b ! i)" "b ! i ! j = EMPTY"
  shows "\<exists>b'. result_any b (int i, int j) = Inr b' \<and> b' \<noteq> b \<and>
           player_any b' = player_any b \<and> actions_any b' = actions_any b \<and> winner_any b' = winner_any b"
proof -
  let ?b' = "b[i := (b ! i)[j := Some (player b)]]"
  have rb: "result b (int i, int j) = Inr ?b'"
    using assms(3-5) by (simp add: result_eq py_norm_def Let_def)
  have fits': "fits ?b'" by (rule result_fits [OF rb assms(1)])
  have ne: "?b' \<noteq> b"
  proof
    assume "?b' = b"
    then have "?b' ! i ! j = b ! i ! j" by simp
    with assms(3-5) show False by simp
  qed
  have "player ?b' = player b \<and> actions ?b' = actions b \<and> winner ?b' = winner b"
    by (rule same_cells_queries) (use assms(1-4) in \<open>auto simp: board_update_nth fits_def\<close>)
  moreover have "result_any b (int i, int j) = Inr ?b'"
    using rb assms(1) by (simp add: result_any_eq)
  ultimately show ?thesis
    using ne fits' assms(1) by (simp add: player_any_eq actions_any_eq winner_any_fits)
qed

theorem off_board_move_witness:
  "\<exists>b'. result_any [[EMPTY, EMPTY, EMPTY, EMPTY], [EMPTY, EMPTY, EMPTY, EMPTY], [EMPTY, EMPTY, EMPTY, EMPTY],
        [EMPTY, EMPTY, EMPTY, EMPTY]] (int 3, int 3) = Inr b' \<and>
     b' \<noteq> [[EMPTY, EMPTY, EMPTY, EMPTY], [EMPTY, EMPTY, EMPTY, EMPTY], [EMPTY, EMPTY, EMPTY, EMPTY],
        [EMPTY, EMPTY, EMPTY, EMPTY]] \<and>
     player_any b' = player_any [[EMPTY, EMPTY, EMPTY, EMPTY], [EMPTY, EMPTY, EMPTY, EMPTY],
        [EMPTY, EMPTY, EMPTY, EMPTY], [EMPTY, EMPTY, EMPTY, EMPTY]] \<and>
     actions_any b' = actions_any [[EMPTY, EMPTY, EMPTY, EMPTY], [EMPTY, EMPTY, EMPTY, EMPTY],
        [EMPTY, EMPTY, EMPTY, EMPTY], [EMPTY, EMPTY, EMPTY, EMPTY]] \<and>
     winner_any b' = winner_any [[EMPTY, EMPTY, EMPTY, EMPTY], [EMPTY, EMPTY, EMPTY, EMPTY],
        [EMPTY, EMPTY, EMPTY, EMPTY], [EMPTY, EMPTY, EMPTY, EMPTY]]"
  by (rule off_board_move) (simp_all add: fits_3 N_def)

end
