(* ===== verification/Any_Search.thy ===== *)
theory Any_Search
  imports Any_Board Minimax
begin

text \<open>
  \<^verbatim>\<open>_max_value\<close>, \<^verbatim>\<open>_min_value\<close> and \<^verbatim>\<open>minimax\<close> on any list of lists, over the
  queries of \<open>Any_Board\<close>: every call that may raise is threaded through
  \<open>py_result\<close>, in the order Python makes the calls (\<^verbatim>\<open>terminal\<close>, then
  \<^verbatim>\<open>utility\<close> or \<^verbatim>\<open>actions\<close>; in \<^verbatim>\<open>minimax\<close>, \<^verbatim>\<open>terminal\<close>, \<^verbatim>\<open>actions\<close>,
  \<^verbatim>\<open>player\<close>, then the values loop). On a board that fits (at least three rows of at
  least three cells) they coincide with the definitions of \<open>Minimax\<close>; on any other
  board \<^verbatim>\<open>minimax\<close> either returns \<^verbatim>\<open>None\<close>, when the scans of \<^verbatim>\<open>winner\<close> meet a
  line of three equal marks before a missing cell, or raises \<^verbatim>\<open>IndexError\<close>.
\<close>

section \<open>The search\<close>

function max_value_any :: "board \<Rightarrow> ext_int py_result"
  and max_loop_any :: "board \<Rightarrow> ext_int \<Rightarrow> action list \<Rightarrow> ext_int py_result"
  and min_value_any :: "board \<Rightarrow> ext_int py_result"
  and min_loop_any :: "board \<Rightarrow> ext_int \<Rightarrow> action list \<Rightarrow> ext_int py_result" where
  "max_value_any board =
     (case terminal_any board of Inl e \<Rightarrow> Inl e | Inr t \<Rightarrow>
      if t then (case utility_any board of Inl e \<Rightarrow> Inl e | Inr u \<Rightarrow> Inr (Fin u))
      else (case actions_any board of Inl e \<Rightarrow> Inl e | Inr acts \<Rightarrow> max_loop_any board NegInf acts))"
| "max_loop_any board v [] = Inr v"
| "max_loop_any board v (action # rest) =
     (case result_any board action of Inl e \<Rightarrow> Inl e | Inr board' \<Rightarrow>
      (case min_value_any board' of Inl e \<Rightarrow> Inl e | Inr w \<Rightarrow> max_loop_any board (max v w) rest))"
| "min_value_any board =
     (case terminal_any board of Inl e \<Rightarrow> Inl e | Inr t \<Rightarrow>
      if t then (case utility_any board of Inl e \<Rightarrow> Inl e | Inr u \<Rightarrow> Inr (Fin u))
      else (case actions_any board of Inl e \<Rightarrow> Inl e | Inr acts \<Rightarrow> min_loop_any board PosInf acts))"
| "min_loop_any board v [] = Inr v"
| "min_loop_any board v (action # rest) =
     (case result_any board action of Inl e \<Rightarrow> Inl e | Inr board' \<Rightarrow>
      (case max_value_any board' of Inl e \<Rightarrow> Inl e | Inr w \<Rightarrow> min_loop_any board (min v w) rest))"
  by pat_completeness auto

termination
proof (relation "measures
    [\<lambda>x. fst (case_sum (case_sum value_measure loop_measure) (case_sum value_measure loop_measure) x),
     \<lambda>x. snd (case_sum (case_sum value_measure loop_measure) (case_sum value_measure loop_measure) x)]")
qed (auto simp: value_measure_def loop_measure_def actions_any_eq result_any_eq
      split: if_splits sum.splits dest: result_empties_less)

declare max_value_any.simps [simp del] min_value_any.simps [simp del]

fun fill_values_any :: "(board \<Rightarrow> ext_int py_result) \<Rightarrow> board \<Rightarrow> action list \<Rightarrow> ext_int list py_result" where
  "fill_values_any helper_func board [] = Inr []"
| "fill_values_any helper_func board (action # rest) =
     (case result_any board action of Inl e \<Rightarrow> Inl e | Inr board' \<Rightarrow>
      (case helper_func board' of Inl e \<Rightarrow> Inl e | Inr v \<Rightarrow>
       (case fill_values_any helper_func board rest of Inl e \<Rightarrow> Inl e | Inr vs \<Rightarrow> Inr (v # vs))))"

definition minimax_any :: "board \<Rightarrow> action option py_result" where
  "minimax_any board =
     (case terminal_any board of Inl e \<Rightarrow> Inl e | Inr t \<Rightarrow>
      if t then Inr None
      else (case actions_any board of Inl e \<Rightarrow> Inl e | Inr possible_actions \<Rightarrow>
            (case player_any board of Inl e \<Rightarrow> Inl e | Inr current_player \<Rightarrow>
             (let helper_func = (if current_player = PO then max_value_any else min_value_any);
                  opt_func = (if current_player = PO then py_min else py_max)
              in (case fill_values_any helper_func board possible_actions of Inl e \<Rightarrow> Inl e | Inr values \<Rightarrow>
                  (case opt_func values of Inl e \<Rightarrow> Inl e | Inr best \<Rightarrow>
                  (case py_index values best of Inl e \<Rightarrow> Inl e | Inr i \<Rightarrow>
                  (case py_get possible_actions (int i) of Inl e \<Rightarrow> Inl e | Inr a \<Rightarrow> Inr (Some a)))))))))"

section \<open>Lemmas\<close>

lemma values_any_fits:
  "fits b \<Longrightarrow> max_value_any b = max_value b"
  "fits b \<Longrightarrow> max_loop_any b v as = max_loop b v as"
  "fits b \<Longrightarrow> min_value_any b = min_value b"
  "fits b \<Longrightarrow> min_loop_any b v as = min_loop b v as"
proof (induction b and b v as and b and b v as rule: max_value_any_max_loop_any_min_value_any_min_loop_any.induct)
  case (1 board)
  then show ?case
    by (simp add: max_value_any.simps [of board] max_value.simps [of board] terminal_any_eq
        utility_any_fits actions_any_eq)
next
  case (3 board v action rest)
  then show ?case
    by (auto simp: result_any_eq result_fits split: sum.splits)
next
  case (4 board)
  then show ?case
    by (simp add: min_value_any.simps [of board] min_value.simps [of board] terminal_any_eq
        utility_any_fits actions_any_eq)
next
  case (6 board v action rest)
  then show ?case
    by (auto simp: result_any_eq result_fits split: sum.splits)
qed simp_all

lemma fill_values_any_fits:
  assumes "fits b" "\<forall>b'. fits b' \<longrightarrow> h' b' = h b'"
  shows "fill_values_any h' b as = fill_values h b as"
  using assms by (induction as) (auto simp: result_any_eq result_fits split: sum.splits)

lemma minimax_any_fits:
  assumes "fits b"
  shows "minimax_any b = minimax b"
proof -
  have "fill_values_any max_value_any b as = fill_values max_value b as"
    "fill_values_any min_value_any b as = fill_values min_value b as" for as
    using assms by (simp_all add: fill_values_any_fits values_any_fits)
  with assms show ?thesis
    by (simp add: minimax_any_def minimax_def terminal_any_eq actions_any_eq player_any_eq Let_def)
qed

section \<open>Properties\<close>

text \<open>
  C27. On every board with at least three rows of at least three cells, the search run as
  Python runs it, with every exception threaded, computes what the model of
  \<open>Minimax\<close> computes: \<^verbatim>\<open>_max_value\<close>, \<^verbatim>\<open>_min_value\<close> and \<^verbatim>\<open>minimax\<close> agree.
\<close>

theorem any_search_refine:
  assumes "fits b"
  shows "max_value_any b = max_value b \<and> min_value_any b = min_value b \<and> minimax_any b = minimax b"
  using assms by (simp add: values_any_fits minimax_any_fits)

theorem any_search_refine_witness:
  "max_value_any [[Some PX, Some PO, Some PX, EMPTY], [Some PO, Some PX, Some PO, EMPTY], [EMPTY, EMPTY, EMPTY, EMPTY]] = max_value [[Some PX, Some PO, Some PX, EMPTY], [Some PO, Some PX, Some PO, EMPTY], [EMPTY, EMPTY, EMPTY, EMPTY]] \<and>
   min_value_any [[Some PX, Some PO, Some PX, EMPTY], [Some PO, Some PX, Some PO, EMPTY], [EMPTY, EMPTY, EMPTY, EMPTY]] = min_value [[Some PX, Some PO, Some PX, EMPTY], [Some PO, Some PX, Some PO, EMPTY], [EMPTY, EMPTY, EMPTY, EMPTY]] \<and>
   minimax_any [[Some PX, Some PO, Some PX, EMPTY], [Some PO, Some PX, Some PO, EMPTY], [EMPTY, EMPTY, EMPTY, EMPTY]] = minimax [[Some PX, Some PO, Some PX, EMPTY], [Some PO, Some PX, Some PO, EMPTY], [EMPTY, EMPTY, EMPTY, EMPTY]]"
  by (rule any_search_refine) (simp add: fits_3)

text \<open>
  C29. On a board too short to read in full, \<^verbatim>\<open>minimax\<close> returns \<^verbatim>\<open>None\<close> when the
  scans of \<^verbatim>\<open>winner\<close> meet a line of three equal marks before they meet a missing
  cell (\<^verbatim>\<open>terminal\<close> then never calls \<^verbatim>\<open>actions\<close>), and raises \<^verbatim>\<open>IndexError\<close>
  otherwise: a one-row board \<^verbatim>\<open>[["X", "X", "X"]]\<close> is a finished game for it.
\<close>

theorem short_board_minimax:
  assumes "\<not> fits b"
  shows "minimax_any b = (case winner_any b of Inr (Some p) \<Rightarrow> Inr None | _ \<Rightarrow> Inl IndexError)"
  using assms
  by (auto simp: minimax_any_def terminal_any_eq split: sum.splits option.splits dest: winner_any_Inl)

theorem short_board_minimax_witness:
  "minimax_any [[Some PX, Some PX, Some PX]] = Inr None"
proof -
  have "minimax_any [[Some PX, Some PX, Some PX]] =
      (case winner_any [[Some PX, Some PX, Some PX]] of Inr (Some p) \<Rightarrow> Inr None | _ \<Rightarrow> Inl IndexError)"
    by (rule short_board_minimax) (simp add: fits_3)
  also have "\<dots> = Inr None"
    by code_simp
  finally show ?thesis .
qed

end
