(* ===== verification/Spec2Isabelle.thy ===== *)
theory Spec2Isabelle
  imports Play Any_Search
begin

text \<open>
  \<^bold>\<open>A verification library for \<^verbatim>\<open>src/tictactoe/tictactoe.py\<close>.\<close>

  \<^bold>\<open>The program.\<close> One Python module of pure functions over a 3-by-3 board: the
  board queries \<^verbatim>\<open>initial_state\<close>, \<^verbatim>\<open>_count_X_and_Os\<close>, \<^verbatim>\<open>player\<close>,
  \<^verbatim>\<open>actions\<close> and \<^verbatim>\<open>result\<close> (lines 8--79); the static evaluation \<^verbatim>\<open>winner\<close>,
  \<^verbatim>\<open>terminal\<close> and \<^verbatim>\<open>utility\<close> (lines 82--125); and the search
  \<^verbatim>\<open>_max_value\<close>, \<^verbatim>\<open>_min_value\<close> and \<^verbatim>\<open>minimax\<close> (lines 128--181), which call
  all the others. A caller (no UI exists in the repository) plays by calling
  \<^verbatim>\<open>actions\<close>, choosing a move (possibly with \<^verbatim>\<open>minimax\<close>), applying \<^verbatim>\<open>result\<close> and
  checking \<^verbatim>\<open>terminal\<close>.

  \<^bold>\<open>Theories.\<close>
  \<^item> \<open>Prelude\<close>: the Python runtime the module relies on. Exceptions are the left side
    of \<open>py_error + 'a\<close> (\<open>IndexError\<close>, \<open>NameError\<close>, \<open>ValueError\<close>); list indexing
    and item assignment with negative indices (\<open>py_get\<close>, \<open>py_set\<close>); the sentinels
    \<^verbatim>\<open>float("-inf")\<close>/\<^verbatim>\<open>float("inf")\<close> as \<open>ext_int\<close>, an instance of
    \<open>linorder\<close> so that the library's \<open>max\<close>, \<open>min\<close>, \<open>Max\<close> and \<open>Min\<close> apply;
    the builtins \<^verbatim>\<open>max\<close>, \<^verbatim>\<open>min\<close>, \<^verbatim>\<open>list.index\<close> (\<open>py_max\<close>, \<open>py_min\<close>,
    \<open>py_index\<close>); shared list lemmas.
  \<^item> \<open>Board\<close>: \<open>Player\<close> (the datatype \<open>PX | PO\<close> for \<^verbatim>\<open>"X"\<close>/\<^verbatim>\<open>"O"\<close>), a
    \<open>cell\<close> as \<open>Player option\<close> with \<open>EMPTY = None\<close>, a \<open>board\<close> as the source's list
    of rows, \<open>N\<close>, \<open>initial_state\<close>, \<open>count_X_and_Os\<close> (the nested loop as a
    \<open>fold\<close> of \<open>count_step\<close> over the row-major index list), \<open>player\<close>,
    \<open>actions\<close> (the nested loop as a list comprehension) and \<open>result\<close> (with Python's
    indexing; the deep copy is HOL's value semantics). Lemmas: \<open>result\<close> on every
    branch, \<open>actions\<close> before and after a move, the count loop against
    \<open>count_list\<close>, and \<open>result_empties\<close>, that a move fills exactly one empty cell.
  \<^item> \<open>Winner\<close>: \<open>winner\<close> with its two loops \<open>scan_rows\<close>/\<open>scan_cols\<close>,
    \<open>terminal\<close>, \<open>utility\<close>; the abstract view of the eight \<open>lines\<close> and the spec's
    \<open>winner_spec\<close> (first line of three identical non-empty cells). \<open>winner_find\<close>
    characterises the code exactly: the first line of three equal cells, empty or not;
    \<open>winner_misjudges_iff\<close> says exactly when it differs from the spec.
  \<^item> \<open>Minimax\<close>: \<open>max_value\<close>/\<open>min_value\<close> with their loops
    \<open>max_loop\<close>/\<open>min_loop\<close> as one mutual \<^theory_text>\<open>function\<close>, terminating by the
    lexicographic measure (empty cells, actions left in the loop); \<open>fill_values\<close> and
    \<open>minimax\<close>. The specification is the game-tree evaluation of the AFP entry
    Alpha_Beta_Pruning: \<open>game_tree\<close> unfolds a board into its positions,
    \<open>maxmin\<close>/\<open>minmax\<close> evaluate it, \<open>move_value\<close> and \<open>game_value\<close> read it off.
    Lemmas: the value functions refine \<open>maxmin\<close>/\<open>minmax\<close>; \<open>minimax\<close> returns the
    first action of \<^verbatim>\<open>actions\<close> achieving the game value. The cost of the search is
    \<open>T_max_value\<close>/\<open>T_min_value\<close>, the number of calls of the value functions,
    written as the time functions of HOL's Data_Structures (each follows the recursion it
    counts, with the loop stopping where the code's stops); from \<open>e\<close> empty cells it is
    at most \<open>calls_bound e = 1 + e + e (e - 1) + \<dots> + e!\<close>, 986410 from the empty board.
  \<^item> \<open>Game\<close>: \<open>reachable\<close> (boards produced from \<^verbatim>\<open>initial_state()\<close> by moves from
    \<^verbatim>\<open>actions\<close>) and \<open>game_reachable\<close> (the same, moving only while not
    \<^verbatim>\<open>terminal\<close>) as inductive step relations; the count invariant by rule induction;
    \<^verbatim>\<open>player\<close> alternation.
  \<^item> \<open>Fast\<close>: the board queries specialised to the \<open>3 \<times> 3\<close> board for evaluation in
    the logic (\<open>fast_winner\<close>, \<open>fast_player\<close>, \<open>fast_terminal\<close>,
    \<open>fast_utility\<close>, and \<open>board_succs\<close>, the successors in row-major order), each
    proved equal to the code's function on every board of the program's shape.
  \<^item> \<open>Bounds\<close>: \<open>bound\<close>, a decision procedure for "the minimax value of this board is
    at least / at most \<open>v\<close>" that stops scanning a board's moves once the answer is known
    (a null-window search), proved sound and complete against the game tree, which
    \<^verbatim>\<open>_max_value\<close>/\<^verbatim>\<open>_min_value\<close> evaluate.
  \<^item> \<open>Opening\<close>: the spec's end-to-end property. Each of the nine boards after X's
    first move is shown to have value 0 by two runs of \<open>bound\<close>; hence every first
    move ties and \<^verbatim>\<open>minimax(initial_state())\<close> returns \<^verbatim>\<open>(0, 0)\<close>.
  \<^item> \<open>Play\<close>: the caller's loop, modelled from the spec (no caller exists under
    \<^verbatim>\<open>src/\<close>): \<open>play p opp\<close> lets \<^verbatim>\<open>minimax\<close> move for \<open>p\<close> and an arbitrary
    opponent \<open>opp\<close> pick among \<^verbatim>\<open>actions\<close> for the other side. It ends at a terminal
    board, the program's side secures the game value from every reachable board, and from
    the empty board \<^verbatim>\<open>minimax\<close> never loses, as X or as O; \<open>selfplay\<close>, with
    \<^verbatim>\<open>minimax\<close> on both sides, keeps the game value at every move and so ends the empty
    board in a draw on a full board, the \<^verbatim>\<open>winner\<close> defect notwithstanding.
  \<^item> \<open>Any_Board\<close> and \<open>Any_Search\<close>: the same code on any list of lists, as Python
    runs it. Every \<^verbatim>\<open>board[r][c]\<close> is \<open>cell_at\<close>, which raises \<^verbatim>\<open>IndexError\<close>
    out of range; the loops stop at the first read that raises; \<^verbatim>\<open>a == b == c\<close>
    (\<open>chain_eq\<close>) and \<^verbatim>\<open>winner(board) or ...\<close> short-circuit; \<^verbatim>\<open>result\<close> calls
    \<^verbatim>\<open>player\<close> after its checks; the search threads every exception in call order
    (\<open>count_X_and_Os_any\<close>, \<open>player_any\<close>, \<open>actions_any\<close>, \<open>result_any\<close>,
    \<open>winner_any\<close>, \<open>terminal_any\<close>, \<open>utility_any\<close>, \<open>max_value_any\<close> \<open>\<dots>\<close>
    \<open>minimax_any\<close>). On a board that \<open>fits\<close> (at least three rows of at least three
    cells, larger ones included) each is proved equal to the 3-by-3 model above; on any
    other board the error behaviour is characterised exactly. On a board larger than
    3 by 3, \<^verbatim>\<open>result\<close> accepts moves outside the playing area that change nothing the
    queries read (\<open>off_board_move\<close>).
  \<^item> This theory: properties that span the components, and the findings.

  \<^bold>\<open>Bounds and fuel.\<close> No fuel is used: every loop of the source is a structural
  recursion over a list, and the search recursion is a \<^theory_text>\<open>function\<close> whose
  termination is proved from \<open>result_empties_less\<close>: each successful \<^verbatim>\<open>result\<close>
  fills one of at most 9 empty cells, and the number of calls the search makes is
  bounded accordingly (\<open>Minimax.search_calls_bound\<close>); the checker \<open>bound\<close>
  and the loop \<open>play\<close> terminate by the same measure. Concrete boards are evaluated in
  the kernel by \<open>simp\<close> and \<open>code_simp\<close>: the code's definitions run at about 30
  search positions a second (boards with up to 5 empty cells in seconds), the
  specialised queries of \<open>Fast\<close> at about 140. The full tree from the empty board
  (549946 positions) is out of reach either way; the eighteen runs of \<open>bound\<close> in
  \<open>Opening\<close> visit about 28000 positions and take about two minutes.

  \<^bold>\<open>Not modelled.\<close> The 3-by-3 model reads \<^verbatim>\<open>board[r][c]\<close> with HOL's \<open>!\<close>
  and its theorems assume the program's shape (\<open>wf_board\<close>), which every board a
  caller can produce has (\<open>reachable_invariant\<close>); boards of any other shape are covered
  by \<open>Any_Board\<close>/\<open>Any_Search\<close>, which refine to it. Cell values other than
  \<^verbatim>\<open>"X"\<close>, \<^verbatim>\<open>"O"\<close> and \<^verbatim>\<open>None\<close> are outside the type. The caller is not
  code of the repository: \<open>reachable\<close>, \<open>game_reachable\<close> and \<open>play\<close> model the
  loop the spec describes, with the opponent's choice as an arbitrary function onto the
  legal moves. Running time is modelled only as the number of calls of the value
  functions; recursion depth in CPython and the deep copy's cost are not modelled.

  \<^bold>\<open>Plan.\<close> Done: the three components in full (their every operation is a
  definition here), the count invariant and turn alternation over reachable boards, the
  refinement of the search onto the game tree, the first-optimal-action contract of
  \<^verbatim>\<open>minimax\<close>, the \<^verbatim>\<open>winner\<close> defect with its consequences in play, the spec's
  \<^verbatim>\<open>minimax(initial_state()) == (0, 0)\<close> by certified bounds, the bound on the calls the search makes, and the caller's loop
  with its termination and the never-lose guarantee, the exact condition under which
  \<^verbatim>\<open>winner\<close> misjudges a board, and the whole program on boards of any shape with
  its exceptions. Next: (1) the moves of self-play from the empty board, one by one, by
  the certificates of \<open>Bounds\<close>; (2) which games reach a misjudged position.

  \<^bold>\<open>Findings.\<close> (1) \<^verbatim>\<open>winner\<close> returns at the first line whose cells are equal, and
  three empty cells are equal: on a board whose row 0 is empty it returns \<^verbatim>\<open>None\<close>
  even when X holds all of row 1, so the game is not terminal and \<^verbatim>\<open>minimax\<close> goes on
  choosing moves (\<open>winner_misses_row_win\<close>); on boards with no empty line it agrees with
  the spec (\<open>Winner.winner_refines_spec\<close>). (2) \<^verbatim>\<open>result\<close> raises the undefined name
  \<^verbatim>\<open>ValidationError\<close>, hence \<^verbatim>\<open>NameError\<close>. (3) \<^verbatim>\<open>result\<close> accepts negative
  coordinates down to \<open>-3\<close> (\<open>Board.result_negative_index\<close>), where the spec says
  out-of-range coordinates fail. (4) Every first move of X, edges included, has value
  0 under the code's rules (\<open>Opening.opening_values\<close>); the spec names only the corners
  and the centre as optimal. (5) On malformed boards the code is not consistent:
  \<^verbatim>\<open>minimax([["X", "X", "X"]])\<close> returns \<^verbatim>\<open>None\<close>, because the chained comparison
  and \<^verbatim>\<open>or\<close> short-circuit before a missing cell is read, while other short boards
  raise \<^verbatim>\<open>IndexError\<close> (\<open>Any_Search.short_board_minimax\<close>). (6) On a board larger than 3 by 3,
  \<^verbatim>\<open>result\<close> accepts a move outside the playing area, where the spec says
  out-of-range moves fail, and the same player is to move again
  (\<open>Any_Board.off_board_move\<close>).
\<close>

section \<open>Properties across components\<close>

text \<open>
  A game from the initial board in which X fills row 1 while row 0 stays empty:
  X at (1, 0), O at (2, 0), X at (1, 1), O at (2, 1), X at (1, 2).
\<close>

lemma game_row_win:
  "game_reachable [[EMPTY, EMPTY, EMPTY], [Some PX, Some PX, Some PX], [Some PO, Some PO, EMPTY]]"
proof -
  have g1: "game_reachable [[EMPTY, EMPTY, EMPTY], [Some PX, EMPTY, EMPTY], [EMPTY, EMPTY, EMPTY]]"
    by (rule game_reachable.move [OF game_reachable.start, of "(1, 0)"]; code_simp)
  have g2: "game_reachable [[EMPTY, EMPTY, EMPTY], [Some PX, EMPTY, EMPTY], [Some PO, EMPTY, EMPTY]]"
    by (rule game_reachable.move [OF g1, of "(2, 0)"]; code_simp)
  have g3: "game_reachable [[EMPTY, EMPTY, EMPTY], [Some PX, Some PX, EMPTY], [Some PO, EMPTY, EMPTY]]"
    by (rule game_reachable.move [OF g2, of "(1, 1)"]; code_simp)
  have g4: "game_reachable [[EMPTY, EMPTY, EMPTY], [Some PX, Some PX, EMPTY], [Some PO, Some PO, EMPTY]]"
    by (rule game_reachable.move [OF g3, of "(2, 1)"]; code_simp)
  show ?thesis
    by (rule game_reachable.move [OF g4, of "(1, 2)"]; code_simp)
qed

text \<open>
  C5. \<^verbatim>\<open>winner\<close> misses a completed row: in a game played from the initial board,
  X completes row 1 while row 0 is still empty; the spec's winner is X, but
  \<^verbatim>\<open>winner\<close> returns \<^verbatim>\<open>None\<close>, the board is not terminal, and \<^verbatim>\<open>minimax\<close> returns a
  further move.
\<close>

theorem winner_misses_row_win:
  "game_reachable [[EMPTY, EMPTY, EMPTY], [Some PX, Some PX, Some PX], [Some PO, Some PO, EMPTY]] \<and>
   winner_spec [[EMPTY, EMPTY, EMPTY], [Some PX, Some PX, Some PX], [Some PO, Some PO, EMPTY]] = Some PX \<and>
   winner [[EMPTY, EMPTY, EMPTY], [Some PX, Some PX, Some PX], [Some PO, Some PO, EMPTY]] = None \<and>
   \<not> terminal [[EMPTY, EMPTY, EMPTY], [Some PX, Some PX, Some PX], [Some PO, Some PO, EMPTY]] \<and>
   minimax [[EMPTY, EMPTY, EMPTY], [Some PX, Some PX, Some PX], [Some PO, Some PO, EMPTY]] = Inr (Some (0, 0))"
proof -
  have "winner_spec [[EMPTY, EMPTY, EMPTY], [Some PX, Some PX, Some PX], [Some PO, Some PO, EMPTY]] = Some PX \<and>
   winner [[EMPTY, EMPTY, EMPTY], [Some PX, Some PX, Some PX], [Some PO, Some PO, EMPTY]] = None \<and>
   \<not> terminal [[EMPTY, EMPTY, EMPTY], [Some PX, Some PX, Some PX], [Some PO, Some PO, EMPTY]] \<and>
   minimax [[EMPTY, EMPTY, EMPTY], [Some PX, Some PX, Some PX], [Some PO, Some PO, EMPTY]] = Inr (Some (0, 0))"
    by code_simp
  with game_row_win show ?thesis by blast
qed

theorem winner_misses_row_win_witness:
  "winner [[EMPTY, EMPTY, EMPTY], [Some PX, Some PX, Some PX], [Some PO, Some PO, EMPTY]] \<noteq>
   winner_spec [[EMPTY, EMPTY, EMPTY], [Some PX, Some PX, Some PX], [Some PO, Some PO, EMPTY]]"
  using winner_misses_row_win by simp

text \<open>
  C14. In a game, the move \<^verbatim>\<open>minimax\<close> chooses on a non-terminal board is legal: it is
  one of \<^verbatim>\<open>actions\<close>, \<^verbatim>\<open>result\<close> accepts it, and the game goes on from the new board.
\<close>

theorem minimax_move_legal:
  assumes "game_reachable b" "\<not> terminal b"
  shows "\<exists>a b'. minimax b = Inr (Some a) \<and> a \<in> set (actions b) \<and> result b a = Inr b' \<and>
                game_reachable b'"
proof -
  have wf: "wf_board b"
    using reachable_wf_counts [OF game_reachable_reachable [OF assms(1)]] by blast
  obtain i where i: "py_index (map (move_value b) (actions b)) (game_value b) = Inr i"
    and m: "minimax b = Inr (Some (actions b ! i))"
    using minimax_index [OF wf assms(2)] by blast
  from i have "actions b ! i \<in> set (actions b)" by (simp add: py_index_Inr_iff)
  moreover from result_action_Inr [OF wf this] obtain b' where "result b (actions b ! i) = Inr b'" ..
  ultimately show ?thesis
    using m game_reachable.move [OF assms] by blast
qed

theorem minimax_move_legal_witness:
  "\<exists>a b'. minimax [[Some PX, Some PX, EMPTY], [Some PO, Some PO, EMPTY], [Some PX, Some PO, EMPTY]] = Inr (Some a) \<and>
     a \<in> set (actions [[Some PX, Some PX, EMPTY], [Some PO, Some PO, EMPTY], [Some PX, Some PO, EMPTY]]) \<and>
     result [[Some PX, Some PX, EMPTY], [Some PO, Some PO, EMPTY], [Some PX, Some PO, EMPTY]] a = Inr b' \<and>
     game_reachable b'"
proof (rule minimax_move_legal)
  have g1: "game_reachable [[Some PX, EMPTY, EMPTY], [EMPTY, EMPTY, EMPTY], [EMPTY, EMPTY, EMPTY]]"
    by (rule game_reachable.move [OF game_reachable.start, of "(0, 0)"]; code_simp)
  have g2: "game_reachable [[Some PX, EMPTY, EMPTY], [Some PO, EMPTY, EMPTY], [EMPTY, EMPTY, EMPTY]]"
    by (rule game_reachable.move [OF g1, of "(1, 0)"]; code_simp)
  have g3: "game_reachable [[Some PX, Some PX, EMPTY], [Some PO, EMPTY, EMPTY], [EMPTY, EMPTY, EMPTY]]"
    by (rule game_reachable.move [OF g2, of "(0, 1)"]; code_simp)
  have g4: "game_reachable [[Some PX, Some PX, EMPTY], [Some PO, Some PO, EMPTY], [EMPTY, EMPTY, EMPTY]]"
    by (rule game_reachable.move [OF g3, of "(1, 1)"]; code_simp)
  have g5: "game_reachable [[Some PX, Some PX, EMPTY], [Some PO, Some PO, EMPTY], [Some PX, EMPTY, EMPTY]]"
    by (rule game_reachable.move [OF g4, of "(2, 0)"]; code_simp)
  show "game_reachable [[Some PX, Some PX, EMPTY], [Some PO, Some PO, EMPTY], [Some PX, Some PO, EMPTY]]"
    by (rule game_reachable.move [OF g5, of "(2, 1)"]; code_simp)
  show "\<not> terminal [[Some PX, Some PX, EMPTY], [Some PO, Some PO, EMPTY], [Some PX, Some PO, EMPTY]]"
    by code_simp
qed

text \<open>
  C17. Because \<^verbatim>\<open>winner\<close> misses the completed row, the game goes on and O completes
  a row too: a board reached in play has a whole row of X and a whole row of O, where the
  spec relies on a valid board having at most one winner; \<^verbatim>\<open>winner\<close> still
  returns \<^verbatim>\<open>None\<close>.
\<close>

theorem two_winners_reachable:
  "game_reachable [[EMPTY, EMPTY, EMPTY], [Some PX, Some PX, Some PX], [Some PO, Some PO, Some PO]] \<and>
   line_cells [[EMPTY, EMPTY, EMPTY], [Some PX, Some PX, Some PX], [Some PO, Some PO, Some PO]] (row_line 1)
     = [Some PX, Some PX, Some PX] \<and>
   line_cells [[EMPTY, EMPTY, EMPTY], [Some PX, Some PX, Some PX], [Some PO, Some PO, Some PO]] (row_line 2)
     = [Some PO, Some PO, Some PO] \<and>
   winner [[EMPTY, EMPTY, EMPTY], [Some PX, Some PX, Some PX], [Some PO, Some PO, Some PO]] = None"
proof -
  have "game_reachable [[EMPTY, EMPTY, EMPTY], [Some PX, Some PX, Some PX], [Some PO, Some PO, Some PO]]"
    by (rule game_reachable.move [OF game_row_win, of "(2, 2)"]; code_simp)
  then show ?thesis by (simp add: line_cells_def row_line_def winner_def N_def upt_rec)
qed

theorem two_winners_reachable_witness:
  "winner [[EMPTY, EMPTY, EMPTY], [Some PX, Some PX, Some PX], [Some PO, Some PO, Some PO]] = None"
  using two_winners_reachable by blast

end
